theory Spec2Isabelle
  imports Complex_Main
begin

section \<open>Instants and durations\<close>

text \<open>
  A value handed to a function that expects a JavaScript \<open>Date\<close>: \<open>null\<close> (or any
  value that is not a \<open>Date\<close>), a \<open>Date\<close> whose time value is \<open>NaN\<close>, or a
  \<open>Date\<close> with its time value in milliseconds since the epoch.
\<close>

datatype dateval = NullDate | InvalidDate | ValidDate int

text \<open>
  JavaScript numbers are IEEE doubles: every arithmetic result is the exact result rounded
  to the nearest double, a tie going to the even mantissa. \<open>toDouble\<close> is that rounding
  on the rationals, for magnitudes up to the largest double (none larger arises from time
  values): \<open>floorLog2\<close> is the binary exponent of a positive number, \<open>ulpAt\<close> the
  spacing of the doubles around a number (with the exponent of the subnormal range as the
  least one), and the number is rounded to a multiple of that spacing.
\<close>

definition pow2 :: "int \<Rightarrow> rat" where
  "pow2 j = (if 0 \<le> j then 2 ^ nat j else 1 / 2 ^ nat (- j))"

function log2up :: "rat \<Rightarrow> int" where
  "log2up x = (if 2 \<le> x then 1 + log2up (x / 2) else 0)"
  by pat_completeness auto
termination
proof (relation "measure (\<lambda>x. nat \<lfloor>x\<rfloor>)")
  show "wf (measure (\<lambda>x :: rat. nat \<lfloor>x\<rfloor>))" by simp
next
  fix x :: rat
  assume x: "2 \<le> x"
  have "x / 2 \<le> x - 1" using x by simp
  then have "\<lfloor>x / 2\<rfloor> \<le> \<lfloor>x - 1\<rfloor>" by (rule floor_mono)
  moreover have "1 \<le> \<lfloor>x\<rfloor>" using x by linarith
  ultimately show "(x / 2, x) \<in> measure (\<lambda>x. nat \<lfloor>x\<rfloor>)" by simp
qed

function log2down :: "rat \<Rightarrow> int" where
  "log2down x = (if 0 < x \<and> x < 1 then log2down (2 * x) - 1 else 0)"
  by pat_completeness auto
termination
proof (relation "measure (\<lambda>x. nat \<lfloor>1 / x\<rfloor>)")
  show "wf (measure (\<lambda>x :: rat. nat \<lfloor>1 / x\<rfloor>))" by simp
next
  fix x :: rat
  assume x: "0 < x \<and> x < 1"
  define y where "y = 1 / x"
  have y: "1 < y" using x by (simp add: y_def)
  then have fy: "1 \<le> \<lfloor>y\<rfloor>" by linarith
  have "y < of_int \<lfloor>y\<rfloor> + 1" by linarith
  then have "y / 2 < of_int \<lfloor>y\<rfloor>" using fy by linarith
  then have "\<lfloor>y / 2\<rfloor> < \<lfloor>y\<rfloor>" by (simp add: floor_less_iff)
  moreover have "1 / (2 * x) = y / 2" by (simp add: y_def)
  ultimately have "\<lfloor>1 / (2 * x)\<rfloor> < \<lfloor>1 / x\<rfloor>" by (simp only: y_def)
  then show "(2 * x, x) \<in> measure (\<lambda>x. nat \<lfloor>1 / x\<rfloor>)"
    using fy by (simp add: y_def del: divide_divide_eq_left times_divide_eq_left)
qed

declare log2up.simps [simp del] log2down.simps [simp del]

definition floorLog2 :: "rat \<Rightarrow> int" where
  "floorLog2 x = (if 1 \<le> x then log2up x else log2down x)"

definition roundHalfEven :: "rat \<Rightarrow> int" where
  "roundHalfEven t =
     (let f = \<lfloor>t\<rfloor>; r = t - of_int f
      in if r < 1 / 2 then f else if 1 / 2 < r then f + 1 else if even f then f else f + 1)"

definition ulpAt :: "rat \<Rightarrow> rat" where
  "ulpAt x = pow2 (max (floorLog2 \<bar>x\<bar>) (- 1022) - 52)"

definition toDouble :: "rat \<Rightarrow> rat" where
  "toDouble x =
     (if x = 0 then 0
      else sgn x * of_int (roundHalfEven (\<bar>x\<bar> / ulpAt x)) * ulpAt x)"

text \<open>
  \<open>Math.round\<close> returns the integer nearest to its argument, a tie going towards
  \<open>+\<infinity>\<close>; on a double this is exact.
\<close>

definition mathRound :: "rat \<Rightarrow> int" where
  "mathRound x = \<lfloor>x + 1 / 2\<rfloor>"

text \<open>
  The time value of a valid \<open>Date\<close> is a whole number of milliseconds of magnitude at
  most 8.64e15, which is a double.
\<close>

definition validTime :: "int \<Rightarrow> bool" where
  "validTime t = (\<bar>t\<bar> \<le> 8640000000000000)"

text \<open>
  \<open>calculateDurationMinutes\<close>: the difference of the two time values and its quotient
  by \<open>1000 * 60\<close> are doubles.
\<close>

fun calculateDurationMinutes :: "dateval \<Rightarrow> dateval \<Rightarrow> int option" where
  "calculateDurationMinutes (ValidDate startTime) (ValidDate endTime) =
     (let diffMillis = toDouble (of_int endTime - of_int startTime)
      in if diffMillis < 0 then None
         else Some (mathRound (toDouble (diffMillis / (1000 * 60)))))"
| "calculateDurationMinutes _ _ = None"

section \<open>Provider payloads\<close>

text \<open>
  The provider's response is deserialised JSON. A JavaScript value read from it is a JSON
  value or \<open>undefined\<close> (\<open>None\<close>): a missing property reads as \<open>undefined\<close>.
  An object keeps its members as an association list.
\<close>

datatype json =
    JNull
  | JBool bool
  | JNum rat
  | JStr string
  | JArr "json list"
  | JObj "(string \<times> json) list"

type_synonym jsval = "json option"

text \<open>Truthiness: \<open>undefined\<close>, \<open>null\<close>, \<open>false\<close>, \<open>0\<close> and \<open>""\<close> are falsy.\<close>

fun truthy :: "jsval \<Rightarrow> bool" where
  "truthy None = False"
| "truthy (Some JNull) = False"
| "truthy (Some (JBool b)) = b"
| "truthy (Some (JNum n)) = (n \<noteq> 0)"
| "truthy (Some (JStr s)) = (s \<noteq> [])"
| "truthy (Some (JArr _)) = True"
| "truthy (Some (JObj _)) = True"

text \<open>The operator \<open>a || b\<close>.\<close>

definition orElse :: "jsval \<Rightarrow> jsval \<Rightarrow> jsval" where
  "orElse a b = (if truthy a then a else b)"

section \<open>Itinerary duration\<close>

text \<open>
  What the loop over a trip's legs reads of one leg: the parsed departure instant of its
  first point and the parsed arrival instant of its last point.
\<close>

record legTimes =
  departureDateTime :: dateval
  arrivalDateTime :: dateval

text \<open>The two variables the loop over the legs updates.\<close>

record tripAcc =
  calculatedTotalDuration :: int
  previousLegArrivalDateTime :: dateval

definition legStep :: "tripAcc \<Rightarrow> legTimes \<Rightarrow> tripAcc" where
  "legStep acc leg =
     (let segmentDuration =
            calculateDurationMinutes (departureDateTime leg) (arrivalDateTime leg);
          waitingTime =
            (if previousLegArrivalDateTime acc \<noteq> NullDate \<and> departureDateTime leg \<noteq> NullDate
             then calculateDurationMinutes (previousLegArrivalDateTime acc) (departureDateTime leg)
             else None);
          newTotal =
            (case segmentDuration of
               None \<Rightarrow> calculatedTotalDuration acc
             | Some d \<Rightarrow>
                 (case waitingTime of
                    None \<Rightarrow> calculatedTotalDuration acc + d
                  | Some w \<Rightarrow>
                      if w > 0 then calculatedTotalDuration acc + d + w
                      else calculatedTotalDuration acc + d))
      in \<lparr>calculatedTotalDuration = newTotal,
          previousLegArrivalDateTime = arrivalDateTime leg\<rparr>)"

definition initialTripAcc :: tripAcc where
  "initialTripAcc = \<lparr>calculatedTotalDuration = 0, previousLegArrivalDateTime = NullDate\<rparr>"

definition tripTotalDuration :: "legTimes list \<Rightarrow> int" where
  "tripTotalDuration legs = calculatedTotalDuration (foldl legStep initialTripAcc legs)"

text \<open>
  The route's duration field: the provider's value (\<open>trip.duration || null\<close>), overridden
  by the calculated total when that is positive.
\<close>

definition routeDuration :: "jsval \<Rightarrow> int \<Rightarrow> jsval" where
  "routeDuration tripDuration calculated =
     (if calculated > 0 then Some (JNum (of_int calculated))
      else orElse tripDuration (Some JNull))"

text \<open>
  The total as the specification words it: the travel time of every leg that has one, and
  for every adjacent pair of legs the wait between them when it is available and positive.
\<close>

definition travelTime :: "legTimes \<Rightarrow> int option" where
  "travelTime leg = calculateDurationMinutes (departureDateTime leg) (arrivalDateTime leg)"

definition positiveWait :: "legTimes \<Rightarrow> legTimes \<Rightarrow> int" where
  "positiveWait previous next =
     (case calculateDurationMinutes (arrivalDateTime previous) (departureDateTime next) of
        None \<Rightarrow> 0
      | Some w \<Rightarrow> if w > 0 then w else 0)"

definition travelSum :: "legTimes list \<Rightarrow> int" where
  "travelSum legs = sum_list (map (\<lambda>leg. case travelTime leg of None \<Rightarrow> 0 | Some d \<Rightarrow> d) legs)"

definition specTotalDuration :: "legTimes list \<Rightarrow> int" where
  "specTotalDuration legs =
     travelSum legs + sum_list (map (\<lambda>(p, n). positiveWait p n) (zip legs (tl legs)))"

text \<open>
  The total the loop computes: a wait is counted only in front of a leg whose own travel
  time is available.
\<close>

definition gatedWait :: "legTimes \<Rightarrow> legTimes \<Rightarrow> int" where
  "gatedWait previous next = (if travelTime next = None then 0 else positiveWait previous next)"

definition gatedTotalDuration :: "legTimes list \<Rightarrow> int" where
  "gatedTotalDuration legs =
     travelSum legs + sum_list (map (\<lambda>(p, n). gatedWait p n) (zip legs (tl legs)))"

definition minutes :: "int \<Rightarrow> dateval" where
  "minutes n = ValidDate (n * 60000)"

text \<open>Example trips.\<close>

definition legsGap5 :: "legTimes list" where
  "legsGap5 =
     [\<lparr>departureDateTime = minutes 0, arrivalDateTime = minutes 10\<rparr>,
      \<lparr>departureDateTime = minutes 15, arrivalDateTime = minutes 30\<rparr>]"

definition legsGap0 :: "legTimes list" where
  "legsGap0 =
     [\<lparr>departureDateTime = minutes 0, arrivalDateTime = minutes 10\<rparr>,
      \<lparr>departureDateTime = minutes 10, arrivalDateTime = minutes 25\<rparr>]"

definition legsOpenEnd :: "legTimes list" where
  "legsOpenEnd =
     [\<lparr>departureDateTime = minutes 0, arrivalDateTime = minutes 10\<rparr>,
      \<lparr>departureDateTime = minutes 15, arrivalDateTime = NullDate\<rparr>]"

section \<open>Property access\<close>

datatype jserror = TypeError | EfaApiError

text \<open>
  Reading a named member of a value that is neither \<open>undefined\<close> nor \<open>null\<close>. The
  members of an object that was parsed from JSON are its own (the last of several equal
  keys wins); arrays and strings have a \<open>length\<close>; none of the names the handlers read
  is inherited from a prototype.
\<close>

fun getMember :: "json \<Rightarrow> string \<Rightarrow> jsval" where
  "getMember (JObj members) key = map_of (rev members) key"
| "getMember (JArr elements) key =
     (if key = ''length'' then Some (JNum (of_nat (length elements))) else None)"
| "getMember (JStr s) key =
     (if key = ''length'' then Some (JNum (of_nat (length s))) else None)"
| "getMember _ key = None"

text \<open>\<open>x.key\<close> raises a TypeError on \<open>undefined\<close> and \<open>null\<close>; \<open>x?.key\<close> gives \<open>undefined\<close>.\<close>

fun member :: "jsval \<Rightarrow> string \<Rightarrow> jserror + jsval" where
  "member None key = Inl TypeError"
| "member (Some JNull) key = Inl TypeError"
| "member (Some v) key = Inr (getMember v key)"

fun optMember :: "jsval \<Rightarrow> string \<Rightarrow> jsval" where
  "optMember None key = None"
| "optMember (Some JNull) key = None"
| "optMember (Some v) key = getMember v key"

section \<open>Numbers in strings\<close>

text \<open>
  A JavaScript number: not-a-number, an infinity, or a finite value. Finite values are
  kept exact (as rationals); the rounding of a decimal literal to the nearest double is not
  modelled, and no property below depends on it.
\<close>

datatype jsnum = NaN | PosInf | NegInf | Fin rat

text \<open>
  Strings are sequences of code units below 256. \<open>parseFloat\<close> skips leading white
  space and reads the longest prefix that is a signed decimal literal or \<open>Infinity\<close>.
\<close>

definition isDigit :: "char \<Rightarrow> bool" where
  "isDigit c = (48 \<le> (of_char c :: nat) \<and> (of_char c :: nat) \<le> 57)"

definition digitValue :: "char \<Rightarrow> nat" where
  "digitValue c = of_char c - 48"

definition isWhiteSpace :: "char \<Rightarrow> bool" where
  "isWhiteSpace c = ((of_char c :: nat) \<in> {9, 10, 11, 12, 13, 32, 160})"

fun digitsValue :: "nat \<Rightarrow> string \<Rightarrow> nat" where
  "digitsValue acc [] = acc"
| "digitsValue acc (c # cs) = digitsValue (acc * 10 + digitValue c) cs"

text \<open>\<open>s.split(sep)\<close> for a one-character separator.\<close>

fun splitOn :: "char \<Rightarrow> string \<Rightarrow> string list" where
  "splitOn sep [] = [[]]"
| "splitOn sep (c # cs) =
     (if c = sep then [] # splitOn sep cs
      else (case splitOn sep cs of [] \<Rightarrow> [[c]] | p # ps \<Rightarrow> (c # p) # ps))"

text \<open>The exponent of a decimal literal, with the text that follows it.\<close>

definition exponentPart :: "string \<Rightarrow> int \<times> string" where
  "exponentPart s =
     (case s of
        [] \<Rightarrow> (0, s)
      | e # rest \<Rightarrow>
          if e = CHR ''e'' \<or> e = CHR ''E'' then
            (let negative = (case rest of [] \<Rightarrow> False | c # _ \<Rightarrow> c = CHR ''-'');
                 signed = (case rest of [] \<Rightarrow> False | c # _ \<Rightarrow> c = CHR ''-'' \<or> c = CHR ''+'');
                 body = (if signed then tl rest else rest);
                 digits = takeWhile isDigit body
             in if digits = [] then (0, s)
                else (if negative then - int (digitsValue 0 digits) else int (digitsValue 0 digits),
                      dropWhile isDigit body))
          else (0, s))"

definition power10 :: "int \<Rightarrow> rat" where
  "power10 e = (if e < 0 then 1 / 10 ^ nat (- e) else 10 ^ nat e)"

text \<open>
  The longest unsigned decimal literal at the start of a string: its value and the text
  that follows it.
\<close>

definition unsignedDecimal :: "string \<Rightarrow> (rat \<times> string) option" where
  "unsignedDecimal s =
     (let intDigits = takeWhile isDigit s;
          afterInt = dropWhile isDigit s;
          hasPoint = (case afterInt of [] \<Rightarrow> False | c # _ \<Rightarrow> c = CHR ''.'');
          fracDigits = (if hasPoint then takeWhile isDigit (tl afterInt) else []);
          afterFrac = (if hasPoint then dropWhile isDigit (tl afterInt) else afterInt)
      in if intDigits = [] \<and> fracDigits = [] then None
         else Some ((of_nat (digitsValue 0 intDigits)
                      + of_nat (digitsValue 0 fracDigits) / 10 ^ length fracDigits)
                    * power10 (fst (exponentPart afterFrac)),
                    snd (exponentPart afterFrac)))"

definition parseFloat :: "string \<Rightarrow> jsnum" where
  "parseFloat s =
     (let trimmed = dropWhile isWhiteSpace s;
          negative = (case trimmed of [] \<Rightarrow> False | c # _ \<Rightarrow> c = CHR ''-'');
          signed = (case trimmed of [] \<Rightarrow> False | c # _ \<Rightarrow> c = CHR ''-'' \<or> c = CHR ''+'');
          body = (if signed then tl trimmed else trimmed)
      in if take 8 body = ''Infinity'' then (if negative then NegInf else PosInf)
         else (case unsignedDecimal body of
                 None \<Rightarrow> NaN
               | Some (v, _) \<Rightarrow> Fin (if negative then - v else v)))"

text \<open>
  The conversion of a string to a number (as the operator \<open>-\<close> applies it): white space
  is trimmed at both ends, the empty string is zero, and the whole of the rest has to be a
  signed decimal literal, \<open>Infinity\<close>, or an unsigned hexadecimal, octal or binary
  literal.
\<close>

definition radixDigit :: "char \<Rightarrow> nat option" where
  "radixDigit c =
     (let n = (of_char c :: nat)
      in if 48 \<le> n \<and> n \<le> 57 then Some (n - 48)
         else if 97 \<le> n \<and> n \<le> 102 then Some (n - 87)
         else if 65 \<le> n \<and> n \<le> 70 then Some (n - 55)
         else None)"

fun radixValue :: "nat \<Rightarrow> nat \<Rightarrow> string \<Rightarrow> nat option" where
  "radixValue radix acc [] = Some acc"
| "radixValue radix acc (c # cs) =
     (case radixDigit c of
        None \<Rightarrow> None
      | Some d \<Rightarrow> if d < radix then radixValue radix (acc * radix + d) cs else None)"

definition radixLiteral :: "nat \<Rightarrow> string \<Rightarrow> jsnum" where
  "radixLiteral radix digits =
     (if digits = [] then NaN
      else (case radixValue radix 0 digits of None \<Rightarrow> NaN | Some n \<Rightarrow> Fin (of_nat n)))"

definition stringToNumber :: "string \<Rightarrow> jsnum" where
  "stringToNumber s =
     (let trimmed = rev (dropWhile isWhiteSpace (rev (dropWhile isWhiteSpace s)));
          negative = (case trimmed of [] \<Rightarrow> False | c # _ \<Rightarrow> c = CHR ''-'');
          signed = (case trimmed of [] \<Rightarrow> False | c # _ \<Rightarrow> c = CHR ''-'' \<or> c = CHR ''+'');
          body = (if signed then tl trimmed else trimmed)
      in if trimmed = [] then Fin 0
         else if take 2 trimmed = ''0x'' \<or> take 2 trimmed = ''0X'' then radixLiteral 16 (drop 2 trimmed)
         else if take 2 trimmed = ''0o'' \<or> take 2 trimmed = ''0O'' then radixLiteral 8 (drop 2 trimmed)
         else if take 2 trimmed = ''0b'' \<or> take 2 trimmed = ''0B'' then radixLiteral 2 (drop 2 trimmed)
         else if body = ''Infinity'' then (if negative then NegInf else PosInf)
         else (case unsignedDecimal body of
                 Some (v, []) \<Rightarrow> Fin (if negative then - v else v)
               | _ \<Rightarrow> NaN))"

text \<open>
  The conversion of a JSON value to a number. An object converts through the text
  \<open>[object Object]\<close>, an array through its elements joined by commas (null elements
  as the empty text), so an array of two or more elements is not a number.
\<close>

fun toNumber :: "json \<Rightarrow> jsnum" where
  "toNumber JNull = Fin 0"
| "toNumber (JBool b) = Fin (if b then 1 else 0)"
| "toNumber (JNum n) = Fin n"
| "toNumber (JStr s) = stringToNumber s"
| "toNumber (JObj _) = NaN"
| "toNumber (JArr []) = Fin 0"
| "toNumber (JArr [JNull]) = Fin 0"
| "toNumber (JArr [JBool _]) = NaN"
| "toNumber (JArr [JNum n]) = Fin n"
| "toNumber (JArr [JStr s]) = stringToNumber s"
| "toNumber (JArr [JObj _]) = NaN"
| "toNumber (JArr [JArr elements]) = toNumber (JArr elements)"
| "toNumber (JArr (_ # _ # _)) = NaN"

text \<open>Subtraction of numbers.\<close>

fun subtractNumbers :: "jsnum \<Rightarrow> jsnum \<Rightarrow> jsnum" where
  "subtractNumbers (Fin a) (Fin b) = Fin (a - b)"
| "subtractNumbers NaN _ = NaN"
| "subtractNumbers _ NaN = NaN"
| "subtractNumbers PosInf PosInf = NaN"
| "subtractNumbers NegInf NegInf = NaN"
| "subtractNumbers PosInf _ = PosInf"
| "subtractNumbers NegInf _ = NegInf"
| "subtractNumbers (Fin _) PosInf = NegInf"
| "subtractNumbers (Fin _) NegInf = PosInf"

section \<open>Coordinates\<close>

text \<open>
  \<open>extractCoords\<close>: a truthy \<open>coords\<close> member that is not a string has no \<open>split\<close>
  method, so calling it raises a TypeError.
\<close>

definition extractCoords :: "jsval \<Rightarrow> jserror + (jsnum \<times> jsnum) option" where
  "extractCoords pointRef =
     (let coords = optMember pointRef ''coords''
      in if \<not> truthy coords then Inr None
         else (case coords of
                 Some (JStr s) \<Rightarrow>
                   (let parts = splitOn CHR '','' s
                    in if length parts = 2
                       then (let lon = parseFloat (parts ! 0); lat = parseFloat (parts ! 1)
                             in if lat \<noteq> NaN \<and> lon \<noteq> NaN then Inr (Some (lat, lon))
                                else Inr None)
                       else Inr None)
               | _ \<Rightarrow> Inl TypeError))"

text \<open>
  The Geo Extractor as the specification words it: two parts that parse as finite numbers
  within the latitude and longitude ranges.
\<close>

definition inRange :: "rat \<Rightarrow> rat \<Rightarrow> jsnum \<Rightarrow> bool" where
  "inRange lo hi n = (case n of Fin r \<Rightarrow> lo \<le> r \<and> r \<le> hi | _ \<Rightarrow> False)"

definition specGeoPoint :: "string \<Rightarrow> (jsnum \<times> jsnum) option" where
  "specGeoPoint s =
     (case splitOn CHR '','' s of
        [a, b] \<Rightarrow>
          (let lon = parseFloat a; lat = parseFloat b
           in if inRange (- 90) 90 lat \<and> inRange (- 180) 180 lon then Some (lat, lon) else None)
      | _ \<Rightarrow> None)"

definition coordsRef :: "string \<Rightarrow> jsval" where
  "coordsRef s = Some (JObj [(''coords'', JStr s)])"

section \<open>Temporal normalisation\<close>

text \<open>\<open>s.padStart(2, "0")\<close>.\<close>

fun padStart2 :: "string \<Rightarrow> string" where
  "padStart2 [] = ''00''"
| "padStart2 [c] = [CHR ''0'', c]"
| "padStart2 s = s"

text \<open>A member whose \<open>typeof\<close> is \<open>string\<close>.\<close>

definition stringMember :: "jsval \<Rightarrow> string \<Rightarrow> string option" where
  "stringMember v key = (case optMember v key of Some (JStr s) \<Rightarrow> Some s | _ \<Rightarrow> None)"

definition composeDateString :: "string \<Rightarrow> string \<Rightarrow> string \<Rightarrow> string \<Rightarrow> string \<Rightarrow> string" where
  "composeDateString year month day hour minute =
     year @ ''-'' @ padStart2 month @ ''-'' @ padStart2 day @ ''T'' @ padStart2 hour
       @ '':'' @ padStart2 minute @ '':00''"

text \<open>
  \<open>parseEfaDateTime\<close>. The runtime's date parser is a parameter: \<open>dateParse s\<close> is
  the time value of \<open>new Date(s)\<close>, and \<open>None\<close> when that is \<open>NaN\<close>. Nothing
  in the body raises: the members are read off a truthy value, and \<open>padStart\<close> is
  called on strings only.
\<close>

definition parseEfaDateTime :: "(string \<Rightarrow> int option) \<Rightarrow> jsval \<Rightarrow> dateval" where
  "parseEfaDateTime dateParse efaDateTime =
     (if \<not> truthy efaDateTime then NullDate
      else (case (stringMember efaDateTime ''year'', stringMember efaDateTime ''month'',
                  stringMember efaDateTime ''day'', stringMember efaDateTime ''hour'',
                  stringMember efaDateTime ''minute'') of
              (Some year, Some month, Some day, Some hour, Some minute) \<Rightarrow>
                (case dateParse (composeDateString year month day hour minute) of
                   None \<Rightarrow> NullDate
                 | Some t \<Rightarrow> ValidDate t)
            | _ \<Rightarrow> NullDate))"

text \<open>
  A reference date parser for concrete evaluation: the ECMAScript date-time format in the
  layout \<open>YYYY-MM-DDTHH:mm:ss\<close>, read as a local time at a fixed offset
  \<open>localTZA\<close> (in milliseconds) from UTC. As in V8, a day up to 31 is accepted in every
  month and carries over, and hour 24 is accepted with minute and second zero. The day
  number of a civil date counts from 1970-01-01.
\<close>

definition daysFromCivil :: "int \<Rightarrow> int \<Rightarrow> int \<Rightarrow> int" where
  "daysFromCivil year month day =
     (let y = (if month \<le> 2 then year - 1 else year);
          era = y div 400;
          yoe = y - era * 400;
          doy = (153 * (if month > 2 then month - 3 else month + 9) + 2) div 5 + day - 1;
          doe = yoe * 365 + yoe div 4 - yoe div 100 + doy
      in era * 146097 + doe - 719468)"

definition localTimeValue :: "int \<Rightarrow> int \<Rightarrow> int \<Rightarrow> int \<Rightarrow> int \<Rightarrow> int \<Rightarrow> int \<Rightarrow> int" where
  "localTimeValue localTZA year month day hour minute second =
     daysFromCivil year month day * 86400000 + hour * 3600000 + minute * 60000 + second * 1000
       - localTZA"

definition digitsAt :: "nat \<Rightarrow> nat \<Rightarrow> string \<Rightarrow> string" where
  "digitsAt start len s = take len (drop start s)"

definition isoDateParse :: "int \<Rightarrow> string \<Rightarrow> int option" where
  "isoDateParse localTZA s =
     (if length s = 19 \<and> s ! 4 = CHR ''-'' \<and> s ! 7 = CHR ''-'' \<and> s ! 10 = CHR ''T''
         \<and> s ! 13 = CHR '':'' \<and> s ! 16 = CHR '':''
         \<and> list_all isDigit (digitsAt 0 4 s) \<and> list_all isDigit (digitsAt 5 2 s)
         \<and> list_all isDigit (digitsAt 8 2 s) \<and> list_all isDigit (digitsAt 11 2 s)
         \<and> list_all isDigit (digitsAt 14 2 s) \<and> list_all isDigit (digitsAt 17 2 s)
      then (let year = int (digitsValue 0 (digitsAt 0 4 s));
                month = int (digitsValue 0 (digitsAt 5 2 s));
                day = int (digitsValue 0 (digitsAt 8 2 s));
                hour = int (digitsValue 0 (digitsAt 11 2 s));
                minute = int (digitsValue 0 (digitsAt 14 2 s));
                second = int (digitsValue 0 (digitsAt 17 2 s))
            in if 1 \<le> month \<and> month \<le> 12 \<and> 1 \<le> day \<and> day \<le> 31
                  \<and> (hour \<le> 23 \<and> minute \<le> 59 \<and> second \<le> 59
                      \<or> hour = 24 \<and> minute = 0 \<and> second = 0)
               then Some (localTimeValue localTZA year month day hour minute second)
               else None)
      else None)"

text \<open>
  A field that is "parseable as an integer" in the specification's words: after optional
  white space and a sign it starts with a digit.
\<close>

definition parsesAsInteger :: "string \<Rightarrow> bool" where
  "parsesAsInteger s =
     (let trimmed = dropWhile isWhiteSpace s;
          signed = (case trimmed of [] \<Rightarrow> False | c # _ \<Rightarrow> c = CHR ''-'' \<or> c = CHR ''+'');
          body = (if signed then tl trimmed else trimmed)
      in takeWhile isDigit body \<noteq> [])"

text \<open>A fragment with all five fields present as strings.\<close>

definition fragment :: "string \<Rightarrow> string \<Rightarrow> string \<Rightarrow> string \<Rightarrow> string \<Rightarrow> jsval" where
  "fragment year month day hour minute =
     Some (JObj [(''year'', JStr year), (''month'', JStr month), (''day'', JStr day),
                 (''hour'', JStr hour), (''minute'', JStr minute)])"

text \<open>A field of one or two decimal digits.\<close>

definition twoDigits :: "string \<Rightarrow> bool" where
  "twoDigits s = ((length s = 1 \<or> length s = 2) \<and> list_all isDigit s)"

section \<open>Proximity search\<close>

text \<open>
  A station of the proximity search. Its \<open>distance\<close> is what \<open>point.ref?.distance\<close>
  reads: a JSON value or \<open>undefined\<close>.
\<close>

record station =
  stationId :: json
  stationName :: json
  locality :: json
  coords :: "(jsnum \<times> jsnum) option"
  stationType :: json
  distance :: jsval

text \<open>The comparator \<open>(a, b) => (a.distance || Infinity) - (b.distance || Infinity)\<close>.\<close>

definition distanceOrInfinity :: "station \<Rightarrow> jsnum" where
  "distanceOrInfinity a =
     (case distance a of
        None \<Rightarrow> PosInf
      | Some v \<Rightarrow> if truthy (Some v) then toNumber v else PosInf)"

definition compareDistance :: "station \<Rightarrow> station \<Rightarrow> jsnum" where
  "compareDistance a b = subtractNumbers (distanceOrInfinity a) (distanceOrInfinity b)"

text \<open>
  \<open>Array.prototype.sort\<close> with a comparator: the sort is stable, a comparator result
  of \<open>NaN\<close> counts as zero, and an element moves behind another only when the comparator is
  positive. For a comparator that orders the elements consistently the result is the
  stable sorted permutation, which insertion from the right computes.
\<close>

fun isPositive :: "jsnum \<Rightarrow> bool" where
  "isPositive PosInf = True"
| "isPositive (Fin r) = (0 < r)"
| "isPositive _ = False"

fun insertBy :: "('a \<Rightarrow> 'a \<Rightarrow> jsnum) \<Rightarrow> 'a \<Rightarrow> 'a list \<Rightarrow> 'a list" where
  "insertBy cmp x [] = [x]"
| "insertBy cmp x (y # ys) =
     (if isPositive (cmp x y) then y # insertBy cmp x ys else x # y # ys)"

definition sortBy :: "('a \<Rightarrow> 'a \<Rightarrow> jsnum) \<Rightarrow> 'a list \<Rightarrow> 'a list" where
  "sortBy cmp xs = foldr (insertBy cmp) xs []"

text \<open>The station list after the sorting step of the proximity handler.\<close>

definition sortNearby :: "station list \<Rightarrow> station list" where
  "sortNearby stations =
     (case stations of
        [] \<Rightarrow> stations
      | first # _ \<Rightarrow>
          if distance first \<noteq> None then sortBy compareDistance stations else stations)"

text \<open>
  The order a list sorted by distance has: stations with a distance value come before
  stations without one, and the distance values ascend.
\<close>

fun distanceValue :: "station \<Rightarrow> jsnum option" where
  "distanceValue a = (case distance a of None \<Rightarrow> None | Some v \<Rightarrow> Some (toNumber v))"

fun ascendingDistances :: "station list \<Rightarrow> bool" where
  "ascendingDistances [] = True"
| "ascendingDistances [a] = True"
| "ascendingDistances (a # b # rest) =
     ((case (distanceValue a, distanceValue b) of
         (Some (Fin x), Some (Fin y)) \<Rightarrow> x \<le> y
       | (None, Some _) \<Rightarrow> False
       | _ \<Rightarrow> True)
      \<and> ascendingDistances (b # rest))"

definition stationAt :: "string \<Rightarrow> jsval \<Rightarrow> station" where
  "stationAt name d =
     \<lparr>stationId = JStr name, stationName = JStr name, locality = JStr ''Bozen'',
      coords = None, stationType = JStr ''stop'', distance = d\<rparr>"

text \<open>
  The order the comparator induces on its keys: \<open>a\<close> is not after \<open>b\<close> when the
  difference is not positive.
\<close>

definition notAfter :: "jsnum \<Rightarrow> jsnum \<Rightarrow> bool" where
  "notAfter a b = (\<not> isPositive (subtractNumbers a b))"

text \<open>
  A distance the comparator can use: absent, or truthy and convertible to a finite number.
\<close>

definition usableDistance :: "station \<Rightarrow> bool" where
  "usableDistance a =
     (case distance a of
        None \<Rightarrow> True
      | Some v \<Rightarrow> truthy (Some v) \<and> (case toNumber v of Fin _ \<Rightarrow> True | _ \<Rightarrow> False))"

section \<open>Result classification\<close>

text \<open>
  Whether converting a value to a string returns. An object parsed from JSON converts
  through \<open>Object.prototype.toString\<close> unless it has a member named \<open>toString\<close> of
  its own; such a member is not callable, and the conversion then raises a TypeError. An
  array converts through its elements (null elements as the empty text).
\<close>

fun printable :: "json \<Rightarrow> bool" where
  "printable (JArr elements) = list_all printable elements"
| "printable (JObj members) = (map_of (rev members) ''toString'' = None)"
| "printable _ = True"

text \<open>
  \<open>logEfaMessages\<close>, as far as the handler's outcome depends on it: whether the call
  returns or raises. (The logged text is not modelled.) The function returns at once on
  falsy message data. For an array it maps every element \<open>m\<close> to
  \<open>m.text || JSON.stringify(m)\<close>, which raises a TypeError on a null element, and joins
  the results, which raises a TypeError when a truthy \<open>text\<close> cannot be converted to a
  string. For an object its \<open>text\<close>, when truthy, becomes the message text, and
  \<open>messageText.trim()\<close> raises a TypeError unless that is a string.
\<close>

definition entryLoggable :: "json \<Rightarrow> bool" where
  "entryLoggable m =
     (m \<noteq> JNull
      \<and> (case getMember m ''text'' of
           None \<Rightarrow> True
         | Some t \<Rightarrow> if truthy (Some t) then printable t else True))"

definition logEfaMessages :: "jsval \<Rightarrow> jserror + unit" where
  "logEfaMessages messageData =
     (if \<not> truthy messageData then Inr ()
      else (case messageData of
              Some (JArr messages) \<Rightarrow>
                if list_all entryLoggable messages then Inr () else Inl TypeError
            | Some (JObj members) \<Rightarrow>
                (let messageText = getMember (JObj members) ''text''
                 in if truthy messageText
                    then (case messageText of Some (JStr _) \<Rightarrow> Inr () | _ \<Rightarrow> Inl TypeError)
                    else Inr ())
            | _ \<Rightarrow> Inr ()))"

text \<open>
  What \<open>throw new Error(`EFA API Error: ${efaData.error}`)\<close> raises: the error with that
  message, or a TypeError when the error value cannot be converted to a string.
\<close>

definition throwEfaApiError :: "jsval \<Rightarrow> jserror" where
  "throwEfaApiError errorValue =
     (case errorValue of
        None \<Rightarrow> EfaApiError
      | Some e \<Rightarrow> if printable e then EfaApiError else TypeError)"

text \<open>
  \<open>messages.some(test)\<close> where the test reads members of the element: the elements are
  tried in order up to the first that passes, and the test raises a TypeError on a null
  element.
\<close>

fun someMessage :: "(json \<Rightarrow> bool) \<Rightarrow> json list \<Rightarrow> jserror + bool" where
  "someMessage test [] = Inr False"
| "someMessage test (m # ms) =
     (if m = JNull then Inl TypeError
      else if test m then Inr True
      else someMessage test ms)"

text \<open>The test \<open>m.name === 'code' && m.value === value\<close>.\<close>

definition hasCode :: "string \<Rightarrow> json \<Rightarrow> bool" where
  "hasCode codeValue m =
     (getMember m ''name'' = Some (JStr ''code'') \<and> getMember m ''value'' = Some (JStr codeValue))"

text \<open>
  How a handler ends after the provider has answered: with one of its error responses, or
  the payload goes on to normalisation.
\<close>

datatype classification =
    StopNotFound
  | AmbiguousLocation
  | UpstreamFailure
  | ProcessingError
  | Success

fun httpStatus :: "classification \<Rightarrow> nat" where
  "httpStatus StopNotFound = 404"
| "httpStatus AmbiguousLocation = 400"
| "httpStatus UpstreamFailure = 502"
| "httpStatus ProcessingError = 500"
| "httpStatus Success = 200"

text \<open>
  The catch block of a handler: the error thrown for a top-level \<open>error\<close> field (its
  message starts with \<open>EFA API Error:\<close>) is answered with status 502, a TypeError, which
  carries no response, with status 500.
\<close>

fun catchBlock :: "jserror \<Rightarrow> classification" where
  "catchBlock EfaApiError = UpstreamFailure"
| "catchBlock TypeError = ProcessingError"

text \<open>The stop-not-found check of the departures handler.\<close>

definition stopNotFound :: "jsval \<Rightarrow> jserror + bool" where
  "stopNotFound dmMessage =
     (case dmMessage of
        Some (JArr messages) \<Rightarrow>
          someMessage (\<lambda>m. hasCode ''-3010'' m \<or> hasCode ''-3011'' m) messages
      | Some (JObj members) \<Rightarrow>
          Inr (getMember (JObj members) ''code'' = Some (JNum (- 3010))
               \<or> getMember (JObj members) ''code'' = Some (JNum (- 3011)))
      | _ \<Rightarrow> Inr False)"

text \<open>
  The departures handler from the provider's answer up to the point where the departure
  list is built: the try block, then the handler with its catch block.
\<close>

definition tryDepartures :: "jsval \<Rightarrow> jserror + classification" where
  "tryDepartures efaData =
     (case member efaData ''message'' of
        Inl e \<Rightarrow> Inl e
      | Inr topMessage \<Rightarrow>
          (let dmMessage = optMember (optMember efaData ''departureMonitor'') ''message''
           in case logEfaMessages (orElse topMessage dmMessage) of
                Inl e \<Rightarrow> Inl e
              | Inr _ \<Rightarrow>
                  (case stopNotFound dmMessage of
                     Inl e \<Rightarrow> Inl e
                   | Inr found \<Rightarrow>
                       if found then Inr StopNotFound
                       else if truthy (optMember efaData ''error'')
                       then Inl (throwEfaApiError (optMember efaData ''error''))
                       else Inr Success)))"

definition classifyDepartures :: "jsval \<Rightarrow> classification" where
  "classifyDepartures efaData =
     (case tryDepartures efaData of Inl e \<Rightarrow> catchBlock e | Inr outcome \<Rightarrow> outcome)"

text \<open>The ambiguity check of the route handler.\<close>

definition ambiguous :: "jsval \<Rightarrow> jserror + bool" where
  "ambiguous msg =
     (case msg of
        Some (JArr messages) \<Rightarrow> someMessage (hasCode ''-8011'') messages
      | _ \<Rightarrow> Inr False)"

text \<open>
  The route handler from the provider's answer up to the point where the routes are
  built. Both ambiguity flags are computed before either is used.
\<close>

definition tryRoute :: "jsval \<Rightarrow> jserror + classification" where
  "tryRoute efaData =
     (case member efaData ''itdMessageList'' of
        Inl e \<Rightarrow> Inl e
      | Inr itdMessageList \<Rightarrow>
          (case logEfaMessages itdMessageList of
             Inl e \<Rightarrow> Inl e
           | Inr _ \<Rightarrow>
               if truthy (optMember efaData ''error'')
               then Inl (throwEfaApiError (optMember efaData ''error''))
               else (case ambiguous (optMember (optMember efaData ''origin'') ''message'') of
                       Inl e \<Rightarrow> Inl e
                     | Inr originAmbiguous \<Rightarrow>
                         (case ambiguous (optMember (optMember efaData ''destination'') ''message'') of
                            Inl e \<Rightarrow> Inl e
                          | Inr destAmbiguous \<Rightarrow>
                              if (originAmbiguous \<or> destAmbiguous)
                                 \<and> \<not> truthy (optMember efaData ''trips'')
                              then Inr AmbiguousLocation
                              else Inr Success))))"

definition classifyRoute :: "jsval \<Rightarrow> classification" where
  "classifyRoute efaData =
     (case tryRoute efaData of Inl e \<Rightarrow> catchBlock e | Inr outcome \<Rightarrow> outcome)"

text \<open>
  Message data on which \<open>logEfaMessages\<close> returns, and a message list that holds an
  entry with a given code.
\<close>

definition loggable :: "jsval \<Rightarrow> bool" where
  "loggable messageData = (logEfaMessages messageData = Inr ())"

definition noNullEntries :: "jsval \<Rightarrow> bool" where
  "noNullEntries msg =
     (case msg of Some (JArr messages) \<Rightarrow> list_all (\<lambda>m. m \<noteq> JNull) messages | _ \<Rightarrow> True)"

definition containsCode :: "string \<Rightarrow> jsval \<Rightarrow> bool" where
  "containsCode codeValue msg =
     (case msg of Some (JArr messages) \<Rightarrow> list_ex (hasCode codeValue) messages | _ \<Rightarrow> False)"

definition codeMessage :: "string \<Rightarrow> json" where
  "codeMessage codeValue = JObj [(''name'', JStr ''code''), (''value'', JStr codeValue)]"




definition ambiguousOrigin :: jsval where
  "ambiguousOrigin =
     Some (JObj [(''origin'', JObj [(''message'', JArr [codeMessage ''-8011''])]),
                 (''destination'', JObj [(''name'', JStr ''Meran'')])])"

definition ambiguousOriginWithError :: jsval where
  "ambiguousOriginWithError =
     Some (JObj [(''error'', JStr ''technical problem''),
                 (''origin'', JObj [(''message'', JArr [codeMessage ''-8011''])])])"

definition ambiguousOriginWithTrips :: jsval where
  "ambiguousOriginWithTrips =
     Some (JObj [(''origin'', JObj [(''message'', JArr [codeMessage ''-8011''])]),
                 (''trips'', JArr [JObj [(''duration'', JStr ''00:30'')]])])"

definition ambiguousOriginEmptyTrips :: jsval where
  "ambiguousOriginEmptyTrips =
     Some (JObj [(''origin'', JObj [(''message'', JArr [codeMessage ''-8011''])]),
                 (''trips'', JArr [])])"

definition ambiguousOriginAfterNull :: jsval where
  "ambiguousOriginAfterNull =
     Some (JObj [(''origin'', JObj [(''message'', JArr [JNull, codeMessage ''-8011''])])])"

definition ambiguousOriginUnlogged :: jsval where
  "ambiguousOriginUnlogged =
     Some (JObj [(''itdMessageList'', JArr [JObj [(''text'', JObj [(''toString'', JNum 1)])]]),
                 (''origin'', JObj [(''message'', JArr [codeMessage ''-8011''])])])"

section \<open>Query cache\<close>

text \<open>
  The cache client as the handlers see it: whether the connection is ready, and what
  awaiting \<open>get\<close> and \<open>set\<close> gives, a rejection or the reply (for \<open>get\<close> the stored
  text or null).
\<close>

datatype cacheError = CacheError string

record redisClient =
  isReady :: bool
  getReply :: "string \<Rightarrow> cacheError + string option"
  setReply :: "string \<Rightarrow> string \<Rightarrow> nat \<Rightarrow> cacheError + unit"

datatype logEntry = Warn string | Error string

text \<open>\<open>getFromCache\<close> returns the cached text or null, and what it logged.\<close>

definition getFromCache :: "redisClient \<Rightarrow> string \<Rightarrow> string option \<times> logEntry list" where
  "getFromCache client key =
     (if \<not> isReady client
      then (None, [Warn (''Redis client not ready, skipping cache GET for key: '' @ key)])
      else (case getReply client key of
              Inl cacheError \<Rightarrow> (None, [Error (''Redis GET error for key '' @ key @ '':'')])
            | Inr cached \<Rightarrow> (cached, [])))"

text \<open>\<open>setInCache\<close> returns nothing; the model returns what it logged.\<close>

definition setInCache :: "redisClient \<Rightarrow> string \<Rightarrow> string \<Rightarrow> nat \<Rightarrow> logEntry list" where
  "setInCache client key v expirationSeconds =
     (if \<not> isReady client
      then [Warn (''Redis client not ready, skipping cache SET for key: '' @ key)]
      else (case setReply client key v expirationSeconds of
              Inl cacheError \<Rightarrow> [Error (''Redis SET error for key '' @ key @ '':'')]
            | Inr _ \<Rightarrow> []))"

text \<open>
  The sequence the route, station and proximity handlers follow around the cache (the
  departures handler has the same calls, its hit branch is elided): look the key up; on a hit (a
  non-empty text) answer with the parsed text, where a text that does not parse makes
  \<open>JSON.parse\<close> raise, which the handler answers with status 500; on a miss go on to the
  provider, and after a fresh result store it and answer with it. \<open>fresh\<close> stands for
  what the provider call, the classification and the normalisation of this query give: an
  error status or the result.
\<close>

datatype 'r reply = ServeCached 'r | ServeFresh 'r | Failed nat

definition cachedQuery ::
  "redisClient \<Rightarrow> string \<Rightarrow> nat \<Rightarrow> (string \<Rightarrow> 'r option) \<Rightarrow> ('r \<Rightarrow> string) \<Rightarrow> nat + 'r
     \<Rightarrow> 'r reply \<times> logEntry list" where
  "cachedQuery client cacheKey expirationSeconds jsonParse jsonStringify fresh =
     (case getFromCache client cacheKey of
        (cachedData, getLog) \<Rightarrow>
          (case cachedData of
             Some (c # cs) \<Rightarrow>
               (case jsonParse (c # cs) of
                  None \<Rightarrow> (Failed 500, getLog)
                | Some cachedResult \<Rightarrow> (ServeCached cachedResult, getLog))
           | _ \<Rightarrow>
               (case fresh of
                  Inl status \<Rightarrow> (Failed status, getLog)
                | Inr result \<Rightarrow>
                    (ServeFresh result,
                     getLog @ setInCache client cacheKey (jsonStringify result) expirationSeconds))))"

text \<open>The outcome of a query that does not use the cache at all.\<close>

definition uncached :: "nat + 'r \<Rightarrow> 'r reply" where
  "uncached fresh = (case fresh of Inl status \<Rightarrow> Failed status | Inr result \<Rightarrow> ServeFresh result)"

text \<open>Example clients: the connection is down; reads are rejected; writes are rejected.\<close>

definition downClient :: redisClient where
  "downClient =
     \<lparr>isReady = False, getReply = (\<lambda>key. Inr (Some ''[1]'')),
      setReply = (\<lambda>key v ttl. Inr ())\<rparr>"

definition failingReadClient :: redisClient where
  "failingReadClient =
     \<lparr>isReady = True, getReply = (\<lambda>key. Inl (CacheError ''timeout'')),
      setReply = (\<lambda>key v ttl. Inr ())\<rparr>"

definition failingWriteClient :: redisClient where
  "failingWriteClient =
     \<lparr>isReady = True, getReply = (\<lambda>key. Inr None),
      setReply = (\<lambda>key v ttl. Inl (CacheError ''timeout''))\<rparr>"

section \<open>Departure delay\<close>

text \<open>
  The delay of one departure, from the provider's \<open>delay\<close> field and the parsed scheduled
  and real-time instants. The comparison \<open>delayMinutes === 0\<close> holds for the number zero
  only.
\<close>

definition delayMinutes :: "jsval \<Rightarrow> dateval \<Rightarrow> dateval \<Rightarrow> jsval" where
  "delayMinutes depDelay scheduledDateTime realDateTime =
     (let provided = orElse depDelay (Some (JNum 0))
      in if realDateTime \<noteq> NullDate \<and> scheduledDateTime \<noteq> NullDate \<and> provided = Some (JNum 0)
         then (case calculateDurationMinutes scheduledDateTime realDateTime of
                 None \<Rightarrow> provided
               | Some calculatedDelay \<Rightarrow>
                   if calculatedDelay > 0 then Some (JNum (of_int calculatedDelay))
                   else provided)
         else provided)"

text \<open>A value that is a number and at least zero.\<close>

fun nonNegativeNumber :: "jsval \<Rightarrow> bool" where
  "nonNegativeNumber (Some (JNum n)) = (0 \<le> n)"
| "nonNegativeNumber _ = False"

section \<open>Shape normalisation\<close>

text \<open>
  The three places where the handlers turn a field that may be absent, one object or an
  array into the sequence they iterate over. Where the source skips the loop altogether
  (\<open>if (efaData.trips) { ... }\<close>), the sequence iterated over is empty.
\<close>

definition tripsArray :: "jsval \<Rightarrow> json list" where
  "tripsArray trips =
     (if truthy trips
      then (case trips of Some (JArr xs) \<Rightarrow> xs | Some v \<Rightarrow> [v] | None \<Rightarrow> [])
      else [])"

definition legsArray :: "jsval \<Rightarrow> json list" where
  "legsArray legs =
     (case legs of
        Some (JArr xs) \<Rightarrow> xs
      | Some v \<Rightarrow> if truthy (Some v) then [v] else []
      | None \<Rightarrow> [])"

definition departureListArray :: "jsval \<Rightarrow> json list" where
  "departureListArray departureList =
     (if truthy departureList
      then (case departureList of Some (JArr xs) \<Rightarrow> xs | Some v \<Rightarrow> [v] | None \<Rightarrow> [])
      else [])"

section \<open>Properties of the duration calculator\<close>

lemma mathRound_nonneg: "0 \<le> x \<Longrightarrow> 0 \<le> mathRound x"
  by (simp add: mathRound_def)

lemma pow2_pos: "0 < pow2 j"
  by (simp add: pow2_def)

lemma pow2_succ: "pow2 (j + 1) = 2 * pow2 j"
proof (cases "0 \<le> j")
  case True
  then show ?thesis by (simp add: pow2_def nat_add_distrib)
next
  case False
  then obtain n where n: "- j = int (Suc n)"
    by (metis neg_0_less_iff_less not_le zero_less_imp_eq_int Suc_pred' of_nat_0_less_iff)
  then have j: "j = - int (Suc n)" by linarith
  show ?thesis
  proof (cases n)
    case 0
    with j show ?thesis by (simp add: pow2_def)
  next
    case (Suc m)
    with j have "\<not> 0 \<le> j + 1" "nat (- (j + 1)) = Suc m" "nat (- j) = Suc (Suc m)" by simp_all
    with False show ?thesis by (simp add: pow2_def)
  qed
qed

lemma pow2_less: "pow2 j < pow2 (j + 1)"
  using pow2_pos [of j] by (simp add: pow2_succ)

lemma pow2_mono_nat: "pow2 j \<le> pow2 (j + int n)"
proof (induction n)
  case 0
  then show ?case by simp
next
  case (Suc n)
  have "pow2 (j + int (Suc n)) = 2 * pow2 (j + int n)"
    using pow2_succ [of "j + int n"] by (simp add: algebra_simps)
  with Suc pow2_pos [of "j + int n"] show ?case by linarith
qed

lemma pow2_mono: "i \<le> j \<Longrightarrow> pow2 i \<le> pow2 j"
  using pow2_mono_nat [of i "nat (j - i)"] by simp

lemma log2up_bounds:
  "1 \<le> x \<Longrightarrow> 0 \<le> log2up x \<and> 2 ^ nat (log2up x) \<le> x \<and> x < 2 ^ Suc (nat (log2up x))"
proof (induction x rule: log2up.induct)
  case (1 x)
  show ?case
  proof (cases "2 \<le> x")
    case True
    then have "1 \<le> x / 2" by simp
    with 1 True have ih: "0 \<le> log2up (x / 2)" "2 ^ nat (log2up (x / 2)) \<le> x / 2"
      "x / 2 < 2 ^ Suc (nat (log2up (x / 2)))" by auto
    have eq: "log2up x = 1 + log2up (x / 2)" using True by (subst log2up.simps) simp
    have n: "nat (1 + log2up (x / 2)) = Suc (nat (log2up (x / 2)))" using ih(1) by simp
    from ih show ?thesis unfolding eq n by simp
  next
    case False
    then have "log2up x = 0" by (subst log2up.simps) simp
    with False 1 show ?thesis by simp
  qed
qed

lemma log2down_bounds:
  "0 < x \<Longrightarrow> x < 1 \<Longrightarrow>
   log2down x < 0 \<and> 1 / 2 ^ nat (- log2down x) \<le> x \<and> x < 2 / 2 ^ nat (- log2down x)"
proof (induction x rule: log2down.induct)
  case (1 x)
  have eq: "log2down x = log2down (2 * x) - 1" using 1(2,3) by (subst log2down.simps) simp
  show ?case
  proof (cases "2 * x < 1")
    case True
    with 1 have ih: "log2down (2 * x) < 0" "1 / 2 ^ nat (- log2down (2 * x)) \<le> 2 * x"
      "2 * x < 2 / 2 ^ nat (- log2down (2 * x))" by auto
    have n: "nat (- (log2down (2 * x) - 1)) = Suc (nat (- log2down (2 * x)))" using ih(1) by simp
    from ih show ?thesis unfolding eq n by (simp add: field_simps)
  next
    case False
    then have "log2down (2 * x) = 0" by (subst log2down.simps) simp
    with False 1(2,3) show ?thesis unfolding eq by simp
  qed
qed

lemma floorLog2_bounds:
  assumes "0 < x"
  shows "pow2 (floorLog2 x) \<le> x" and "x < pow2 (floorLog2 x + 1)"
proof -
  show "pow2 (floorLog2 x) \<le> x"
  proof (cases "1 \<le> x")
    case True
    with log2up_bounds [OF True] show ?thesis by (simp add: floorLog2_def pow2_def)
  next
    case False
    with assms log2down_bounds [of x] show ?thesis by (simp add: floorLog2_def pow2_def)
  qed
  show "x < pow2 (floorLog2 x + 1)"
  proof (cases "1 \<le> x")
    case True
    with log2up_bounds [OF True] show ?thesis
      by (simp add: floorLog2_def pow2_def nat_add_distrib)
  next
    case False
    with assms log2down_bounds [of x] have "x < 2 * pow2 (floorLog2 x)"
      by (simp add: floorLog2_def pow2_def)
    then show ?thesis by (simp add: pow2_succ)
  qed
qed

lemma floorLog2_le:
  assumes "0 < x" and "x < pow2 b"
  shows "floorLog2 x \<le> b - 1"
proof (rule ccontr)
  assume "\<not> floorLog2 x \<le> b - 1"
  then have "b \<le> floorLog2 x" by simp
  then have "pow2 b \<le> pow2 (floorLog2 x)" by (rule pow2_mono)
  with floorLog2_bounds(1) [OF assms(1)] assms(2) show False by simp
qed

lemma floorLog2_ge:
  assumes "pow2 b \<le> x"
  shows "b \<le> floorLog2 x"
proof (rule ccontr)
  assume "\<not> b \<le> floorLog2 x"
  then have "floorLog2 x + 1 \<le> b" by simp
  then have "pow2 (floorLog2 x + 1) \<le> pow2 b" by (rule pow2_mono)
  moreover have "0 < x" using assms pow2_pos [of b] by simp
  ultimately show False using floorLog2_bounds(2) [of x] assms by simp
qed

lemma floorLog2_eq: "pow2 b \<le> x \<Longrightarrow> x < pow2 (b + 1) \<Longrightarrow> floorLog2 x = b"
  using floorLog2_ge [of b x] floorLog2_le [of x "b + 1"] pow2_pos [of b] by simp


lemma roundHalfEven_lower: "of_int n \<le> t \<Longrightarrow> n \<le> roundHalfEven t"
proof -
  assume "of_int n \<le> t"
  then have "n \<le> \<lfloor>t\<rfloor>" by (simp add: le_floor_iff)
  moreover have "\<lfloor>t\<rfloor> \<le> roundHalfEven t" by (simp add: roundHalfEven_def Let_def)
  ultimately show ?thesis by simp
qed

lemma roundHalfEven_upper: "t \<le> of_int n \<Longrightarrow> roundHalfEven t \<le> n"
proof -
  assume t: "t \<le> of_int n"
  show ?thesis
  proof (cases "t = of_int \<lfloor>t\<rfloor>")
    case True
    then have "roundHalfEven t = \<lfloor>t\<rfloor>" by (simp add: roundHalfEven_def Let_def)
    moreover from t have "\<lfloor>t\<rfloor> \<le> n" by (simp add: floor_le_iff)
    ultimately show ?thesis by simp
  next
    case False
    then have "of_int \<lfloor>t\<rfloor> < t" by (metis less_le of_int_floor_le)
    with t have "of_int \<lfloor>t\<rfloor> < (of_int n :: rat)" by simp
    then have "\<lfloor>t\<rfloor> < n" by simp
    moreover have "roundHalfEven t \<le> \<lfloor>t\<rfloor> + 1" by (simp add: roundHalfEven_def Let_def)
    ultimately show ?thesis by simp
  qed
qed

lemma roundHalfEven_of_int: "roundHalfEven (of_int z) = z"
  by (simp add: roundHalfEven_def Let_def)

lemma ulpAt_eq: "0 < x \<Longrightarrow> ulpAt x = pow2 (max (floorLog2 x) (- 1022) - 52)"
  by (simp add: ulpAt_def)

lemma ulpAt_pos: "0 < ulpAt x"
  by (simp add: ulpAt_def pow2_pos)

lemma toDouble_pos_eq: "0 < x \<Longrightarrow> toDouble x = of_int (roundHalfEven (x / ulpAt x)) * ulpAt x"
  by (simp add: toDouble_def)

lemma toDouble_minus: "toDouble (- x) = - toDouble x"
  by (simp add: toDouble_def ulpAt_def)

lemma toDouble_between:
  assumes "0 < x" and "of_int lo * ulpAt x \<le> x" and "x \<le> of_int hi * ulpAt x"
  shows "of_int lo * ulpAt x \<le> toDouble x" and "toDouble x \<le> of_int hi * ulpAt x"
proof -
  have u: "0 < ulpAt x" by (rule ulpAt_pos)
  from assms(2) u have "of_int lo \<le> x / ulpAt x" by (simp add: pos_le_divide_eq)
  then have "lo \<le> roundHalfEven (x / ulpAt x)" by (rule roundHalfEven_lower)
  then have "(of_int lo :: rat) \<le> of_int (roundHalfEven (x / ulpAt x))" by simp
  with u show "of_int lo * ulpAt x \<le> toDouble x"
    by (simp add: toDouble_pos_eq [OF assms(1)])
  from assms(3) u have "x / ulpAt x \<le> of_int hi" by (simp add: pos_divide_le_eq)
  then have "roundHalfEven (x / ulpAt x) \<le> hi" by (rule roundHalfEven_upper)
  then have "(of_int (roundHalfEven (x / ulpAt x)) :: rat) \<le> of_int hi" by simp
  with u show "toDouble x \<le> of_int hi * ulpAt x"
    by (simp add: toDouble_pos_eq [OF assms(1)])
qed

lemma toDouble_nonneg: "0 \<le> x \<Longrightarrow> 0 \<le> toDouble x"
proof (cases "x = 0")
  case True
  then show ?thesis by (simp add: toDouble_def)
next
  case False
  assume "0 \<le> x"
  with False have x: "0 < x" by simp
  have "of_int 0 * ulpAt x \<le> x" using x by simp
  moreover obtain hi where "x / ulpAt x \<le> of_int hi" using ex_le_of_int by blast
  then have "x \<le> of_int hi * ulpAt x" using ulpAt_pos [of x] by (simp add: pos_divide_le_eq)
  ultimately have "of_int 0 * ulpAt x \<le> toDouble x" by (rule toDouble_between(1) [OF x])
  then show ?thesis by simp
qed

lemma toDouble_grid:
  assumes "0 < x" and "x = of_int z * ulpAt x"
  shows "toDouble x = x"
proof -
  have "x / ulpAt x = of_int z" using assms(2) ulpAt_pos [of x] by (simp add: field_simps)
  then have "roundHalfEven (x / ulpAt x) = z" by (simp add: roundHalfEven_of_int)
  then show ?thesis using assms(2) by (simp add: toDouble_pos_eq [OF assms(1)])
qed

lemma pow2_neg: "pow2 (- int m) = 1 / 2 ^ m"
  by (cases m) (simp_all add: pow2_def nat_add_distrib)

lemma pow2_nat: "pow2 (int m) = 2 ^ m"
  by (simp add: pow2_def)

lemma toDouble_of_nat_exact:
  assumes "0 < a" and "a < 2 ^ 53"
  shows "toDouble (of_int a) = of_int a"
proof -
  let ?x = "of_int a :: rat"
  have x: "0 < ?x" using assms(1) by simp
  have "pow2 0 \<le> ?x" using assms(1) by (simp add: pow2_def)
  then have lo: "0 \<le> floorLog2 ?x" by (rule floorLog2_ge)
  have "?x < pow2 53" using assms(2) by (simp add: pow2_def)
  with x have hi: "floorLog2 ?x \<le> 52" using floorLog2_le [of ?x 53] by simp
  define m where "m = nat (52 - floorLog2 ?x)"
  have u: "ulpAt ?x = 1 / 2 ^ m"
    using lo hi pow2_neg [of m] by (simp add: ulpAt_eq [OF x] m_def max_def)
  have "?x = of_int (a * 2 ^ m) * ulpAt ?x" by (simp add: u)
  then show ?thesis by (rule toDouble_grid [OF x])
qed

lemma toDouble_even_exact:
  assumes "0 < a" and "a < 2 ^ 54" and "even a"
  shows "toDouble (of_int a) = of_int a"
proof (cases "a < 2 ^ 53")
  case True
  with assms(1) show ?thesis by (rule toDouble_of_nat_exact)
next
  case False
  let ?x = "of_int a :: rat"
  have x: "0 < ?x" using assms(1) by simp
  from False have "(2 :: int) ^ 53 \<le> a" by simp
  then have "(of_int ((2 :: int) ^ 53) :: rat) \<le> of_int a" by (simp only: of_int_le_iff)
  then have "pow2 53 \<le> ?x" by (simp add: pow2_def)
  moreover have "(of_int a :: rat) < of_int ((2 :: int) ^ 54)" using assms(2) by (simp only: of_int_less_iff)
  then have "?x < pow2 (53 + 1)" by (simp add: pow2_def)
  ultimately have "floorLog2 ?x = 53" by (rule floorLog2_eq)
  then have u: "ulpAt ?x = 2" by (simp add: ulpAt_eq [OF x] pow2_def)
  from assms(3) obtain h where "a = 2 * h" by (elim evenE)
  then have eq: "?x = of_int h * 2" by simp
  have "?x = of_int h * ulpAt ?x" unfolding u by (rule eq)
  then show ?thesis by (rule toDouble_grid [OF x])
qed

lemma toDouble_int_exact: "\<bar>d\<bar> < 2 ^ 53 \<Longrightarrow> toDouble (of_int d) = of_int d"
proof -
  assume b: "\<bar>d\<bar> < 2 ^ 53"
  consider "d = 0" | "0 < d" | "d < 0" by linarith
  then show ?thesis
  proof cases
    case 1
    then show ?thesis by (simp add: toDouble_def)
  next
    case 2
    with b show ?thesis by (intro toDouble_of_nat_exact) simp_all
  next
    case 3
    with b have "toDouble (of_int (- d)) = of_int (- d)" by (intro toDouble_of_nat_exact) simp_all
    then show ?thesis using toDouble_minus [of "of_int d"] by simp
  qed
qed

lemma toDouble_pos:
  assumes a: "1 \<le> a"
  shows "0 < toDouble a"
proof -
  from a have pos: "0 < a" by simp
  have "pow2 0 \<le> a" using a by (simp add: pow2_def)
  then have lo: "0 \<le> floorLog2 a" by (rule floorLog2_ge)
  have "ulpAt a = pow2 (floorLog2 a - 52)" using lo by (simp add: ulpAt_eq [OF pos] max_def)
  also have "\<dots> \<le> pow2 (floorLog2 a)" by (rule pow2_mono) simp
  also have "\<dots> \<le> a" by (rule floorLog2_bounds(1) [OF pos])
  finally have "of_int 1 * ulpAt a \<le> a" by simp
  moreover obtain hi where "a / ulpAt a \<le> of_int hi" using ex_le_of_int by blast
  then have "a \<le> of_int hi * ulpAt a" using ulpAt_pos [of a] by (simp add: pos_divide_le_eq)
  ultimately have "of_int 1 * ulpAt a \<le> toDouble a" by (rule toDouble_between(1) [OF pos])
  with ulpAt_pos [of a] show ?thesis by simp
qed

lemma toDouble_neg: "x \<le> - 1 \<Longrightarrow> toDouble x < 0"
  using toDouble_pos [of "- x"] by (simp add: toDouble_minus)


lemma mathRound_of_int: "mathRound (of_int n) = n"
  unfolding mathRound_def by (rule floor_unique) simp_all

lemma mathRound_toDouble:
  fixes b :: nat
  assumes "0 \<le> q" and "q < 2 ^ b" and "b \<le> 52"
    and lower: "of_int k - 1 / 2 \<le> q"
    and upper: "q \<le> of_int k + 1 / 2 - 1 / 2 ^ (53 - b)"
  shows "mathRound (toDouble q) = k"
proof (cases "q = 0")
  case True
  have "(0 :: rat) < 1 / 2 ^ (53 - b)" by simp
  with upper True have "- 1 / 2 < (of_int k :: rat)" by linarith
  then have "(of_int (- 1) :: rat) < of_int k" by simp
  then have "- 1 < k" by (simp only: of_int_less_iff)
  moreover from lower True have "(of_int k :: rat) < of_int 1" by simp
  then have "k < 1" by (simp only: of_int_less_iff)
  ultimately have "k = 0" by simp
  with True mathRound_of_int [of 0] show ?thesis by (simp add: toDouble_def)
next
  case False
  with assms(1) have pos: "0 < q" by simp
  have "q < pow2 (int b)" using assms(2) by (simp add: pow2_nat)
  with pos have E: "floorLog2 q \<le> int b - 1" by (rule floorLog2_le)
  define m where "m = nat (52 - max (floorLog2 q) (- 1022))"
  from E assms(3) have j: "max (floorLog2 q) (- 1022) - 52 = - int m"
    by (simp add: m_def max_def)
  have "int (53 - b) = 53 - int b" using assms(3) by simp
  moreover have "53 - int b \<le> 52 - max (floorLog2 q) (- 1022)" using E assms(3) by linarith
  ultimately have "int (53 - b) \<le> 52 - max (floorLog2 q) (- 1022)" by simp
  then have m: "53 - b \<le> m" unfolding m_def by (simp only: nat_le_iff)
  from m assms(3) obtain m' where m': "m = Suc m'" by (cases m) simp_all
  have u: "ulpAt q = 1 / 2 ^ m"
    by (simp add: ulpAt_eq [OF pos] j pow2_neg)
  have "(1 :: rat) / 2 ^ m \<le> 1 / 2 ^ (53 - b)"
    using m by (simp add: frac_le power_increasing)
  with upper have upper': "q \<le> of_int k + 1 / 2 - 1 / 2 ^ m" by linarith
  have lo: "of_int (k * 2 ^ m - 2 ^ m') * ulpAt q = of_int k - 1 / 2"
    by (simp add: u m' field_simps)
  have hi: "of_int (k * 2 ^ m + 2 ^ m' - 1) * ulpAt q = of_int k + 1 / 2 - 1 / 2 ^ m"
    by (simp add: u m' field_simps)
  have "of_int (k * 2 ^ m - 2 ^ m') * ulpAt q \<le> toDouble q"
    by (rule toDouble_between(1) [OF pos, where hi = "k * 2 ^ m + 2 ^ m' - 1"])
       (simp_all only: lo hi lower upper')
  then have l: "of_int k - 1 / 2 \<le> toDouble q" by (simp only: lo)
  have "toDouble q \<le> of_int (k * 2 ^ m + 2 ^ m' - 1) * ulpAt q"
    by (rule toDouble_between(2) [OF pos, where lo = "k * 2 ^ m - 2 ^ m'"])
       (simp_all only: lo hi lower upper')
  then have "toDouble q \<le> of_int k + 1 / 2 - 1 / 2 ^ m" by (simp only: hi)
  moreover have "(0 :: rat) < 1 / 2 ^ m" by simp
  ultimately have h: "toDouble q < of_int k + 1 / 2" by linarith
  show ?thesis
    unfolding mathRound_def
    by (rule floor_unique) (use l h in linarith)+
qed

lemma quotient_parts:
  fixes d :: int
  defines "k \<equiv> (d + 30000) div 60000" and "r \<equiv> (d + 30000) mod 60000"
  shows "(of_int d :: rat) / 60000 = of_int k + (of_int r - 30000) / 60000"
    and "0 \<le> r" and "r < 60000"
proof -
  have "d + 30000 = 60000 * k + r" by (simp add: k_def r_def)
  then have "d = 60000 * k + r - 30000" by simp
  then have "(of_int d :: rat) = 60000 * of_int k + of_int r - 30000" by simp
  then show "(of_int d :: rat) / 60000 = of_int k + (of_int r - 30000) / 60000"
    by (simp add: field_simps)
  show "0 \<le> r" "r < 60000" by (simp_all add: r_def)
qed

lemma quotient_round_millis:
  assumes "0 \<le> d" and "d < 60000 * 2 ^ 33"
  shows "mathRound (toDouble (of_int d / 60000)) = (d + 30000) div 60000"
proof (rule mathRound_toDouble [where b = 33])
  let ?r = "(d + 30000) mod 60000"
  note parts = quotient_parts [of d]
  show "0 \<le> (of_int d :: rat) / 60000" using assms(1) by simp
  have "(of_int d :: rat) < of_int (60000 * 2 ^ 33)" using assms(2) by (simp only: of_int_less_iff)
  then show "(of_int d :: rat) / 60000 < 2 ^ 33" by simp
  show "(33 :: nat) \<le> 52" by simp
  have r0: "(0 :: rat) \<le> of_int ?r" using parts(2) by simp
  then show "of_int ((d + 30000) div 60000) - 1 / 2 \<le> (of_int d :: rat) / 60000"
    unfolding parts(1) by (simp add: field_simps)
  have "?r \<le> 59999" using parts(3) by simp
  then have "(of_int ?r :: rat) \<le> of_int 59999" by (simp only: of_int_le_iff)
  then have "(of_int ?r :: rat) \<le> 59999" by simp
  then have "(of_int ?r - 30000) / 60000 \<le> (1 / 2 - 1 / 60000 :: rat)" by (simp add: field_simps)
  moreover have "(1 / 60000 :: rat) \<ge> 1 / 2 ^ (53 - 33)" by simp
  ultimately show "(of_int d :: rat) / 60000
      \<le> of_int ((d + 30000) div 60000) + 1 / 2 - 1 / 2 ^ (53 - 33)"
    unfolding parts(1) by linarith
qed

lemma quotient_round_seconds:
  assumes "0 \<le> d" and "d < 2 ^ 54" and "1000 dvd d"
  shows "mathRound (toDouble (of_int d / 60000)) = (d + 30000) div 60000"
proof (rule mathRound_toDouble [where b = 39])
  let ?r = "(d + 30000) mod 60000"
  note parts = quotient_parts [of d]
  show "0 \<le> (of_int d :: rat) / 60000" using assms(1) by simp
  have "(of_int d :: rat) < of_int (2 ^ 54)" using assms(2) by (simp only: of_int_less_iff)
  then show "(of_int d :: rat) / 60000 < 2 ^ 39" by simp
  show "(39 :: nat) \<le> 52" by simp
  have r0: "(0 :: rat) \<le> of_int ?r" using parts(2) by simp
  then show "of_int ((d + 30000) div 60000) - 1 / 2 \<le> (of_int d :: rat) / 60000"
    unfolding parts(1) by (simp add: field_simps)
  have "1000 dvd d + 30000" using assms(3) by simp
  then have "1000 dvd ?r" by (simp add: dvd_mod)
  then obtain c where c: "?r = 1000 * c" by (elim dvdE)
  with parts(3) have "c < 60" by simp
  with c have "?r \<le> 59000" by simp
  then have "(of_int ?r :: rat) \<le> of_int 59000" by (simp only: of_int_le_iff)
  then have "(of_int ?r :: rat) \<le> 59000" by simp
  then have "(of_int ?r - 30000) / 60000 \<le> (1 / 2 - 1 / 60 :: rat)" by (simp add: field_simps)
  moreover have "(1 / 60 :: rat) \<ge> 1 / 2 ^ (53 - 39)" by simp
  ultimately show "(of_int d :: rat) / 60000
      \<le> of_int ((d + 30000) div 60000) + 1 / 2 - 1 / 2 ^ (53 - 39)"
    unfolding parts(1) by linarith
qed

lemma round_minutes: "round (of_int d / (60000 :: rat)) = (d + 30000) div 60000"
proof -
  have eq: "(of_int d / 60000 + 1 / 2 :: rat) = of_int (d + 30000) / of_int 60000"
    by (simp add: field_simps)
  show ?thesis
    unfolding round_def eq by (rule floor_divide_of_int_eq)
qed

lemma calculateDurationMinutes_before:
  "e < s \<Longrightarrow> calculateDurationMinutes (ValidDate s) (ValidDate e) = None"
proof -
  assume "e < s"
  then have "e - s \<le> - 1" by simp
  then have "(of_int (e - s) :: rat) \<le> of_int (- 1)" by (simp only: of_int_le_iff)
  then have "(of_int e - of_int s :: rat) \<le> - 1" by simp
  then have "toDouble (of_int e - of_int s) < 0" by (rule toDouble_neg)
  then show ?thesis by (simp add: Let_def)
qed

lemma calculateDurationMinutes_millis:
  assumes "s \<le> e" and "e - s < 60000 * 2 ^ 33"
  shows "calculateDurationMinutes (ValidDate s) (ValidDate e) = Some ((e - s + 30000) div 60000)"
proof -
  from assms have "\<bar>e - s\<bar> < 2 ^ 53" by simp
  then have "toDouble (of_int (e - s)) = of_int (e - s)" by (rule toDouble_int_exact)
  then have d: "toDouble (of_int e - of_int s) = of_int (e - s)" by simp
  have q: "mathRound (toDouble (of_int (e - s) / 60000)) = (e - s + 30000) div 60000"
    using assms by (intro quotient_round_millis) simp_all
  from assms(1) have "\<not> (of_int (e - s) :: rat) < 0" by simp
  with q show ?thesis by (simp add: Let_def d del: of_int_diff)
qed

lemma calculateDurationMinutes_seconds:
  assumes "validTime s" and "validTime e" and "s \<le> e" and "1000 dvd (e - s)"
  shows "calculateDurationMinutes (ValidDate s) (ValidDate e) = Some ((e - s + 30000) div 60000)"
proof -
  from assms(1,2) have bound: "e - s < 2 ^ 54" by (simp add: validTime_def)
  have "even (e - s)" using assms(4) by (rule dvd_trans [rotated]) simp
  have "toDouble (of_int (e - s)) = of_int (e - s)"
  proof (cases "e = s")
    case True
    then show ?thesis by (simp add: toDouble_def)
  next
    case False
    with assms(3) have "0 < e - s" by simp
    then show ?thesis using bound \<open>even (e - s)\<close> by (rule toDouble_even_exact)
  qed
  then have d: "toDouble (of_int e - of_int s) = of_int (e - s)" by simp
  have q: "mathRound (toDouble (of_int (e - s) / 60000)) = (e - s + 30000) div 60000"
    using assms(3,4) bound by (intro quotient_round_seconds) simp_all
  from assms(3) have "\<not> (of_int (e - s) :: rat) < 0" by simp
  with q show ?thesis by (simp add: Let_def d del: of_int_diff)
qed

lemma calculateDurationMinutes_nonneg: "calculateDurationMinutes a b = Some n \<Longrightarrow> 0 \<le> n"
proof (cases a)
  case (ValidDate s)
  assume r: "calculateDurationMinutes a b = Some n"
  show ?thesis
  proof (cases b)
    case (ValidDate e)
    let ?d = "toDouble (of_int e - of_int s)"
    from r have d: "\<not> ?d < 0" and n: "n = mathRound (toDouble (?d / (1000 * 60)))"
      by (auto simp: \<open>a = ValidDate s\<close> ValidDate Let_def split: if_splits)
    from d have "0 \<le> ?d / (1000 * 60)" by simp
    then have "0 \<le> toDouble (?d / (1000 * 60))" by (rule toDouble_nonneg)
    then show ?thesis unfolding n by (rule mathRound_nonneg)
  qed (use r in \<open>simp_all add: \<open>a = ValidDate s\<close>\<close>)
qed simp_all

declare calculateDurationMinutes.simps(1) [simp del]

lemma calculateDurationMinutes_eval:
  "e - s < 60000 * 2 ^ 33 \<Longrightarrow>
   calculateDurationMinutes (ValidDate s) (ValidDate e) =
     (if e < s then None else Some ((e - s + 30000) div 60000))"
  by (simp add: calculateDurationMinutes_before calculateDurationMinutes_millis)

lemma toDouble_farthest: "toDouble 17279999999969999 = 17279999999970000"
proof -
  have "pow2 53 \<le> 17279999999969999" and "17279999999969999 < pow2 (53 + 1)"
    by (simp_all add: pow2_def)
  then have "floorLog2 17279999999969999 = 53" by (rule floorLog2_eq)
  then have u: "ulpAt 17279999999969999 = 2" by (simp add: ulpAt_def pow2_def)
  have "\<lfloor>17279999999969999 / 2 :: rat\<rfloor> = 8639999999984999"
    by (rule floor_unique) simp_all
  then have "roundHalfEven (17279999999969999 / 2) = 8639999999985000"
    by (simp add: roundHalfEven_def Let_def)
  then show ?thesis by (simp add: toDouble_pos_eq u)
qed

lemma toDouble_half: "toDouble (575999999999 / 2) = 575999999999 / 2"
proof -
  have "pow2 38 \<le> 575999999999 / 2" and "575999999999 / 2 < pow2 (38 + 1)"
    by (simp_all add: pow2_def)
  then have "floorLog2 (575999999999 / 2) = 38" by (rule floorLog2_eq)
  then have u: "ulpAt (575999999999 / 2) = 1 / 2 ^ 14" by (simp add: ulpAt_def pow2_def)
  have eq: "(575999999999 / 2 :: rat) = of_int (575999999999 * 2 ^ 13) * ulpAt (575999999999 / 2)"
    unfolding u by simp
  have pos: "(0 :: rat) < 575999999999 / 2" by simp
  show ?thesis by (rule toDouble_grid [OF pos eq])
qed

text \<open>
  C8, as the specification states it, fails for Dates far apart: the source subtracts and
  divides doubles. The two valid time values -8640000000000000 and 8639999999969999 differ
  by 17279999999969999 ms, which the subtraction rounds to 17279999999970000; the quotient
  is then 287999999999.5 and rounds to 288000000000, while the exact difference in minutes
  rounds to 287999999999.
\<close>

theorem calculateDurationMinutes_counterexample:
  "validTime (- 8640000000000000) \<and> validTime 8639999999969999
   \<and> calculateDurationMinutes (ValidDate (- 8640000000000000)) (ValidDate 8639999999969999)
       = Some 288000000000
   \<and> round (of_int (8639999999969999 - (- 8640000000000000)) / (60000 :: rat)) = 287999999999"
proof -
  have "mathRound (575999999999 / 2) = 288000000000"
    using mathRound_of_int [of 288000000000] by (simp add: mathRound_def)
  then have "calculateDurationMinutes (ValidDate (- 8640000000000000)) (ValidDate 8639999999969999)
       = Some 288000000000"
    by (simp add: calculateDurationMinutes.simps Let_def toDouble_farthest toDouble_half)
  moreover have "round (of_int (8639999999969999 - (- 8640000000000000)) / (60000 :: rat))
       = 287999999999"
    unfolding round_minutes by simp
  ultimately show ?thesis by (simp add: validTime_def)
qed

text \<open>
  C8, amended. The duration between two instants is unavailable when either instant is
  absent (null or an invalid date) or the end lies before the start. Otherwise it is a
  whole number of minutes that is never negative, and it equals the difference in minutes
  rounded to the nearest integer whenever the difference is below \<open>2^33\<close> minutes (some
  sixteen thousand years), or the two instants are valid time values a whole number of
  seconds apart.
\<close>

theorem calculateDurationMinutes_spec:
  "(a = NullDate \<or> a = InvalidDate \<or> b = NullDate \<or> b = InvalidDate \<longrightarrow>
      calculateDurationMinutes a b = None)
   \<and> (e < s \<longrightarrow> calculateDurationMinutes (ValidDate s) (ValidDate e) = None)
   \<and> (s \<le> e \<and> (e - s < 60000 * 2 ^ 33 \<or> validTime s \<and> validTime e \<and> 1000 dvd (e - s)) \<longrightarrow>
        calculateDurationMinutes (ValidDate s) (ValidDate e)
          = Some (round (of_int (e - s) / (60000 :: rat))))
   \<and> (calculateDurationMinutes a b = Some n \<longrightarrow> 0 \<le> n)"
proof (intro conjI impI)
  assume "a = NullDate \<or> a = InvalidDate \<or> b = NullDate \<or> b = InvalidDate"
  then show "calculateDurationMinutes a b = None" by (cases a; cases b) simp_all
next
  assume "e < s"
  then show "calculateDurationMinutes (ValidDate s) (ValidDate e) = None"
    by (rule calculateDurationMinutes_before)
next
  assume "s \<le> e \<and> (e - s < 60000 * 2 ^ 33 \<or> validTime s \<and> validTime e \<and> 1000 dvd (e - s))"
  then show "calculateDurationMinutes (ValidDate s) (ValidDate e)
          = Some (round (of_int (e - s) / (60000 :: rat)))"
    unfolding round_minutes
    using calculateDurationMinutes_millis [of s e] calculateDurationMinutes_seconds [of s e]
    by blast
next
  assume "calculateDurationMinutes a b = Some n"
  then show "0 \<le> n" by (rule calculateDurationMinutes_nonneg)
qed

theorem calculateDurationMinutes_spec_witness:
  "calculateDurationMinutes (ValidDate 0) (ValidDate 90000) = Some 2
   \<and> round (of_int (90000 - 0) / (60000 :: rat)) = 2
   \<and> calculateDurationMinutes (ValidDate 90000) (ValidDate 0) = None
   \<and> calculateDurationMinutes NullDate (ValidDate 0) = None
   \<and> calculateDurationMinutes (ValidDate 0) InvalidDate = None
   \<and> validTime (- 8640000000000000) \<and> validTime 8640000000000000
   \<and> calculateDurationMinutes (ValidDate (- 8640000000000000)) (ValidDate 8640000000000000)
       = Some 288000000000"
proof -
  have v: "validTime (- 8640000000000000)" "validTime 8640000000000000"
    by (simp_all add: validTime_def)
  have r1: "round (of_int (90000 - 0) / (60000 :: rat)) = 2"
    unfolding round_minutes by simp
  have r2: "round (of_int (8640000000000000 - (- 8640000000000000)) / (60000 :: rat))
       = 288000000000"
    unfolding round_minutes by simp
  from v r1 r2
    calculateDurationMinutes_spec [of "ValidDate 0" "ValidDate 90000" 90000 0 2]
    calculateDurationMinutes_spec [of NullDate "ValidDate 0" 0 90000 0]
    calculateDurationMinutes_spec [of "ValidDate 0" InvalidDate 8640000000000000
        "- 8640000000000000" 0]
  show ?thesis by simp
qed

section \<open>Properties of the itinerary duration\<close>

lemma mathRound_numeral [simp]: "mathRound (numeral k) = numeral k"
  using mathRound_of_int [of "numeral k"] by simp

lemma mathRound_zero [simp]: "mathRound 0 = 0"
  using mathRound_of_int [of 0] by simp

lemma calculateDurationMinutes_guard:
  "(if p \<noteq> NullDate \<and> d \<noteq> NullDate then calculateDurationMinutes p d else None)
   = calculateDurationMinutes p d"
  by (cases p; cases d) simp_all

lemma legStep_total:
  "calculatedTotalDuration (legStep acc l) =
     calculatedTotalDuration acc + (case travelTime l of None \<Rightarrow> 0 | Some d \<Rightarrow> d)
       + gatedWait \<lparr>departureDateTime = NullDate, arrivalDateTime = previousLegArrivalDateTime acc\<rparr> l"
  unfolding legStep_def calculateDurationMinutes_guard
  by (simp add: Let_def gatedWait_def positiveWait_def travelTime_def split: option.splits)

lemma legStep_previous: "previousLegArrivalDateTime (legStep acc l) = arrivalDateTime l"
  by (simp add: legStep_def Let_def)

lemma gatedWait_arrival:
  "arrivalDateTime p = arrivalDateTime q \<Longrightarrow> gatedWait p l = gatedWait q l"
  by (simp add: gatedWait_def positiveWait_def)

lemma foldl_legStep_total:
  "previousLegArrivalDateTime acc = arrivalDateTime p \<Longrightarrow>
   calculatedTotalDuration (foldl legStep acc legs) =
     calculatedTotalDuration acc + travelSum legs
       + sum_list (map (\<lambda>(p, n). gatedWait p n) (zip (p # legs) legs))"
proof (induction legs arbitrary: acc p)
  case Nil
  then show ?case by (simp add: travelSum_def)
next
  case (Cons l ls)
  have prev: "previousLegArrivalDateTime (legStep acc l) = arrivalDateTime l"
    by (rule legStep_previous)
  have gw: "gatedWait \<lparr>departureDateTime = NullDate, arrivalDateTime = previousLegArrivalDateTime acc\<rparr> l
            = gatedWait p l"
    by (rule gatedWait_arrival) (simp add: Cons.prems)
  show ?case
    using Cons.IH [OF prev] by (simp add: legStep_total gw travelSum_def)
qed

lemma gatedWait_initial:
  "gatedWait \<lparr>departureDateTime = NullDate, arrivalDateTime = NullDate\<rparr> l = 0"
  by (simp add: gatedWait_def positiveWait_def)

lemma tripTotalDuration_eq_gated: "tripTotalDuration legs = gatedTotalDuration legs"
proof (cases legs)
  case Nil
  then show ?thesis
    by (simp add: tripTotalDuration_def gatedTotalDuration_def travelSum_def initialTripAcc_def)
next
  case (Cons l ls)
  have "previousLegArrivalDateTime initialTripAcc =
        arrivalDateTime \<lparr>departureDateTime = NullDate, arrivalDateTime = NullDate\<rparr>"
    by (simp add: initialTripAcc_def)
  from foldl_legStep_total [OF this, of legs]
  show ?thesis
    by (simp add: Cons tripTotalDuration_def gatedTotalDuration_def gatedWait_initial initialTripAcc_def)
qed

lemma gated_eq_spec:
  "\<forall>leg \<in> set legs. travelTime leg \<noteq> None \<Longrightarrow> gatedTotalDuration legs = specTotalDuration legs"
proof -
  assume avail: "\<forall>leg \<in> set legs. travelTime leg \<noteq> None"
  have "map (\<lambda>(p, n). gatedWait p n) (zip legs (tl legs))
        = map (\<lambda>(p, n). positiveWait p n) (zip legs (tl legs))"
  proof (rule map_cong [OF refl])
    fix x assume x: "x \<in> set (zip legs (tl legs))"
    obtain p n where pn: "x = (p, n)" by (cases x)
    from x pn have "n \<in> set (tl legs)" by (auto dest: set_zip_rightD)
    then have "n \<in> set legs" by (cases legs) auto
    with avail have "travelTime n \<noteq> None" by blast
    then show "(case x of (p, n) \<Rightarrow> gatedWait p n) = (case x of (p, n) \<Rightarrow> positiveWait p n)"
      by (auto simp: pn gatedWait_def)
  qed
  then show ?thesis by (simp only: gatedTotalDuration_def specTotalDuration_def)
qed

lemmas evalTrip =
  tripTotalDuration_def initialTripAcc_def legStep_def minutes_def Let_def
  calculateDurationMinutes_eval
  specTotalDuration_def travelSum_def travelTime_def positiveWait_def

text \<open>
  C1, as the specification states it, fails: a positive wait in front of a leg whose own
  travel time is unavailable is not added. For a first leg from minute 0 to minute 10 and
  a second leg that departs at minute 15 and has no arrival instant, the loop yields 10,
  while travel times plus positive waits give 15.
\<close>

theorem tripTotalDuration_counterexample:
  "tripTotalDuration legsOpenEnd = 10 \<and> specTotalDuration legsOpenEnd = 15
   \<and> tripTotalDuration legsOpenEnd \<noteq> specTotalDuration legsOpenEnd"
  by (simp add: legsOpenEnd_def evalTrip)

text \<open>
  C1, amended. The accumulated total of a trip is the sum of the travel times of every leg
  whose travel time is available, plus, for every adjacent pair of legs, the wait between
  the previous leg's arrival and the next leg's departure when that wait is available and
  strictly positive and the next leg's own travel time is available. When every leg has a
  travel time this is the total the specification states. Travel times 10 and 15 with a
  gap of 5 give 30, with a gap of 0 they give 25. The total replaces the provider's
  duration exactly when it is greater than zero; otherwise the provider's value (or null)
  is kept.
\<close>

theorem tripTotalDuration_spec:
  "tripTotalDuration legs = gatedTotalDuration legs
   \<and> ((\<forall>leg \<in> set legs. travelTime leg \<noteq> None) \<longrightarrow>
        tripTotalDuration legs = specTotalDuration legs)
   \<and> tripTotalDuration legsGap5 = 30
   \<and> tripTotalDuration legsGap0 = 25
   \<and> (0 < tripTotalDuration legs \<longrightarrow>
        routeDuration provided (tripTotalDuration legs)
          = Some (JNum (of_int (tripTotalDuration legs))))
   \<and> (\<not> 0 < tripTotalDuration legs \<longrightarrow>
        routeDuration provided (tripTotalDuration legs) = orElse provided (Some JNull))"
proof -
  have "tripTotalDuration legsGap5 = 30"
    by (simp add: legsGap5_def evalTrip)
  moreover have "tripTotalDuration legsGap0 = 25"
    by (simp add: legsGap0_def evalTrip)
  ultimately show ?thesis
    by (simp add: tripTotalDuration_eq_gated gated_eq_spec routeDuration_def)
qed

theorem tripTotalDuration_spec_witness:
  "list_all (\<lambda>leg. travelTime leg \<noteq> None) legsGap5
   \<and> tripTotalDuration legsGap5 = specTotalDuration legsGap5
   \<and> specTotalDuration legsGap5 = 30
   \<and> 0 < tripTotalDuration legsGap5
   \<and> routeDuration (Some (JStr ''0030'')) (tripTotalDuration legsGap5) = Some (JNum 30)
   \<and> \<not> 0 < tripTotalDuration []
   \<and> routeDuration (Some (JStr ''0030'')) (tripTotalDuration []) = Some (JStr ''0030'')"
proof -
  have avail: "\<forall>leg \<in> set legsGap5. travelTime leg \<noteq> None"
    by (simp add: legsGap5_def evalTrip)
  have empty: "tripTotalDuration [] = 0"
    by (simp add: evalTrip)
  show ?thesis
    using avail tripTotalDuration_spec [of legsGap5 "Some (JStr ''0030'')"]
      tripTotalDuration_spec [of "[]" "Some (JStr ''0030'')"]
    by (simp add: empty orElse_def list_all_iff)
qed

section \<open>Properties of the departure delay\<close>

lemma delayMinutes_provided: "truthy depDelay \<Longrightarrow> delayMinutes depDelay s r = depDelay"
proof -
  assume t: "truthy depDelay"
  then have "depDelay \<noteq> Some (JNum 0)" by auto
  with t show ?thesis by (simp add: delayMinutes_def orElse_def)
qed

lemma delayMinutes_recomputed:
  "\<not> truthy depDelay \<Longrightarrow>
   delayMinutes depDelay s r =
     (case calculateDurationMinutes s r of
        None \<Rightarrow> Some (JNum 0)
      | Some c \<Rightarrow> if c > 0 then Some (JNum (of_int c)) else Some (JNum 0))"
  by (cases s; cases r) (simp_all add: delayMinutes_def orElse_def Let_def)

text \<open>
  C4, as the specification states it, fails: a provider figure that is not zero is taken as
  it is, so a negative figure gives a negative delay.
\<close>

theorem delayMinutes_counterexample:
  "delayMinutes (Some (JNum (- 2))) (ValidDate 0) (ValidDate 180000) = Some (JNum (- 2))
   \<and> \<not> nonNegativeNumber (delayMinutes (Some (JNum (- 2))) (ValidDate 0) (ValidDate 180000))"
  by (simp add: delayMinutes_def orElse_def)

text \<open>
  C4, amended. The delay of a departure record is the provider's figure whenever that
  figure is truthy (not absent and not zero), whatever its sign. When the figure is absent
  or zero, the delay is the recomputed difference between the real-time and the scheduled
  instant if both are available and the difference is strictly positive, and zero
  otherwise. So the delay is a number at least zero whenever the provider's figure is
  absent, zero or a non-negative number.
\<close>

theorem delayMinutes_spec:
  "(truthy depDelay \<longrightarrow> delayMinutes depDelay scheduled realtime = depDelay)
   \<and> (\<not> truthy depDelay \<longrightarrow>
        delayMinutes depDelay scheduled realtime =
          (case calculateDurationMinutes scheduled realtime of
             None \<Rightarrow> Some (JNum 0)
           | Some c \<Rightarrow> if c > 0 then Some (JNum (of_int c)) else Some (JNum 0)))
   \<and> (\<not> truthy depDelay \<or> nonNegativeNumber depDelay \<longrightarrow>
        nonNegativeNumber (delayMinutes depDelay scheduled realtime))"
proof -
  have "nonNegativeNumber (delayMinutes depDelay scheduled realtime)"
    if "\<not> truthy depDelay \<or> nonNegativeNumber depDelay"
  proof (cases "truthy depDelay")
    case True
    with that show ?thesis by (simp add: delayMinutes_provided)
  next
    case False
    show ?thesis
      unfolding delayMinutes_recomputed [OF False]
      by (auto split: option.splits dest: calculateDurationMinutes_nonneg)
  qed
  then show ?thesis
    by (auto simp: delayMinutes_provided delayMinutes_recomputed)
qed

theorem delayMinutes_spec_witness:
  "truthy (Some (JNum 4))
   \<and> delayMinutes (Some (JNum 4)) (ValidDate 0) (ValidDate 180000) = Some (JNum 4)
   \<and> \<not> truthy (Some (JNum 0))
   \<and> delayMinutes (Some (JNum 0)) (ValidDate 0) (ValidDate 180000) = Some (JNum 3)
   \<and> nonNegativeNumber (delayMinutes (Some (JNum 0)) (ValidDate 0) (ValidDate 180000))"
  using delayMinutes_spec [of "Some (JNum 4)" "ValidDate 0" "ValidDate 180000"]
    delayMinutes_spec [of "Some (JNum 0)" "ValidDate 0" "ValidDate 180000"]
  by (simp add: calculateDurationMinutes_eval)

section \<open>Properties of the shape normalisation\<close>

text \<open>
  C9. For the trips of a response, the legs of a trip and the departure list, an absent
  or null field gives the empty sequence, a bare object gives the one-element sequence
  holding that object, and an array gives its elements unchanged and in order.
\<close>

theorem shape_normalisation_spec:
  "tripsArray None = [] \<and> tripsArray (Some JNull) = []
   \<and> tripsArray (Some (JObj members)) = [JObj members]
   \<and> tripsArray (Some (JArr elements)) = elements
   \<and> legsArray None = [] \<and> legsArray (Some JNull) = []
   \<and> legsArray (Some (JObj members)) = [JObj members]
   \<and> legsArray (Some (JArr elements)) = elements
   \<and> departureListArray None = [] \<and> departureListArray (Some JNull) = []
   \<and> departureListArray (Some (JObj members)) = [JObj members]
   \<and> departureListArray (Some (JArr elements)) = elements"
  by (simp add: tripsArray_def legsArray_def departureListArray_def)

section \<open>Properties of the coordinate extraction\<close>

lemmas evalParse =
  parseFloat_def unsignedDecimal_def isDigit_def isWhiteSpace_def digitValue_def
  exponentPart_def power10_def

lemma extractCoords_string:
  "optMember pointRef ''coords'' = Some (JStr s) \<Longrightarrow>
   extractCoords pointRef =
     Inr (case splitOn CHR '','' s of
            [a, b] \<Rightarrow>
              if parseFloat b \<noteq> NaN \<and> parseFloat a \<noteq> NaN then Some (parseFloat b, parseFloat a)
              else None
          | _ \<Rightarrow> None)"
proof -
  assume c: "optMember pointRef ''coords'' = Some (JStr s)"
  show ?thesis
  proof (cases "s = []")
    case True
    with c show ?thesis by (simp add: extractCoords_def)
  next
    case False
    obtain parts where parts: "splitOn CHR '','' s = parts" by simp
    show ?thesis
    proof (cases parts)
      case Nil
      with c False parts show ?thesis by (simp add: extractCoords_def)
    next
      case (Cons a rest)
      show ?thesis
      proof (cases rest)
        case Nil
        with c False parts Cons show ?thesis by (simp add: extractCoords_def)
      next
        case (Cons b rest')
        with c False parts \<open>parts = a # rest\<close> show ?thesis
          by (cases rest') (simp_all add: extractCoords_def Let_def)
      qed
    qed
  qed
qed

lemma specGeoPoint_extract:
  "specGeoPoint s = Some p \<Longrightarrow> extractCoords (coordsRef s) = Inr (Some p)"
proof -
  assume sp: "specGeoPoint s = Some p"
  have m: "optMember (coordsRef s) ''coords'' = Some (JStr s)"
    by (simp add: coordsRef_def)
  have notNaN [simp]: "\<not> inRange lo hi NaN" for lo hi
    by (simp add: inRange_def)
  from sp show ?thesis
    unfolding extractCoords_string [OF m]
    by (auto simp: specGeoPoint_def Let_def split: list.splits if_splits)
qed

text \<open>
  C3, as the specification states it, fails: no range is checked. The string
  \<open>200,100\<close> gives the point with latitude 100 and longitude 200, where the
  specification's extractor gives nothing.
\<close>

theorem extractCoords_counterexample:
  "extractCoords (coordsRef ''200,100'') = Inr (Some (Fin 100, Fin 200))
   \<and> specGeoPoint ''200,100'' = None
   \<and> \<not> inRange (- 90) 90 (Fin 100)"
  by (simp add: extractCoords_def coordsRef_def Let_def evalParse specGeoPoint_def inRange_def)

text \<open>
  C3, amended. For every string in the \<open>coords\<close> member the extractor does not raise, and
  it returns the pair (latitude, longitude) = (number read from the second part, number
  read from the first part) exactly when splitting on the comma gives exactly two parts and
  \<open>parseFloat\<close> of neither part is not-a-number; in every other case it returns
  nothing. No range is checked: whenever the input is in range and well formed in the
  specification's sense the same point is returned, but out-of-range values are returned
  as well. \<open>11.35,46.50\<close> gives (46.5, 11.35); \<open>abc,46.50\<close> and a single part give
  nothing.
\<close>

theorem extractCoords_spec:
  "(optMember pointRef ''coords'' = Some (JStr s) \<longrightarrow>
      extractCoords pointRef =
        Inr (case splitOn CHR '','' s of
               [a, b] \<Rightarrow>
                 if parseFloat b \<noteq> NaN \<and> parseFloat a \<noteq> NaN
                 then Some (parseFloat b, parseFloat a) else None
             | _ \<Rightarrow> None))
   \<and> (specGeoPoint s = Some p \<longrightarrow> extractCoords (coordsRef s) = Inr (Some p))
   \<and> extractCoords (coordsRef ''11.35,46.50'') = Inr (Some (Fin (93 / 2), Fin (227 / 20)))
   \<and> extractCoords (coordsRef ''abc,46.50'') = Inr None
   \<and> extractCoords (coordsRef ''11.35'') = Inr None"
proof -
  have "extractCoords (coordsRef ''11.35,46.50'') = Inr (Some (Fin (93 / 2), Fin (227 / 20)))"
    by (simp add: extractCoords_def coordsRef_def Let_def evalParse)
  moreover have "extractCoords (coordsRef ''abc,46.50'') = Inr None"
    by (simp add: extractCoords_def coordsRef_def Let_def evalParse)
  moreover have "extractCoords (coordsRef ''11.35'') = Inr None"
    by (simp add: extractCoords_def coordsRef_def Let_def evalParse)
  ultimately show ?thesis
    using extractCoords_string [of pointRef s] specGeoPoint_extract [of s p] by blast
qed

theorem extractCoords_spec_witness:
  "optMember (coordsRef ''11.5,46.25'') ''coords'' = Some (JStr ''11.5,46.25'')
   \<and> specGeoPoint ''11.5,46.25'' = Some (Fin (185 / 4), Fin (23 / 2))
   \<and> extractCoords (coordsRef ''11.5,46.25'') = Inr (Some (Fin (185 / 4), Fin (23 / 2)))"
proof -
  have m: "optMember (coordsRef ''11.5,46.25'') ''coords'' = Some (JStr ''11.5,46.25'')"
    by (simp add: coordsRef_def)
  have sp: "specGeoPoint ''11.5,46.25'' = Some (Fin (185 / 4), Fin (23 / 2))"
    by (simp add: specGeoPoint_def Let_def evalParse inRange_def)
  show ?thesis
    using m sp
      extractCoords_spec [of "coordsRef ''11.5,46.25''" "''11.5,46.25''" "(Fin (185 / 4), Fin (23 / 2))"]
    by blast
qed

section \<open>Properties of the temporal normalisation\<close>

lemmas evalDate = parseEfaDateTime_def stringMember_def composeDateString_def
  isoDateParse_def digitsAt_def isDigit_def digitValue_def localTimeValue_def daysFromCivil_def
  fragment_def Let_def

lemma parseEfaDateTime_valid_iff:
  "parseEfaDateTime dateParse v = ValidDate t \<longleftrightarrow>
     truthy v \<and>
     (\<exists>year month day hour minute.
        stringMember v ''year'' = Some year \<and> stringMember v ''month'' = Some month \<and>
        stringMember v ''day'' = Some day \<and> stringMember v ''hour'' = Some hour \<and>
        stringMember v ''minute'' = Some minute \<and>
        dateParse (composeDateString year month day hour minute) = Some t)"
  by (auto simp: parseEfaDateTime_def split: option.splits)

lemma parseEfaDateTime_not_invalid: "parseEfaDateTime dateParse v \<noteq> InvalidDate"
  by (auto simp: parseEfaDateTime_def split: option.splits)

lemma parseEfaDateTime_missing:
  "stringMember v ''year'' = None \<or> stringMember v ''month'' = None \<or> stringMember v ''day'' = None
   \<or> stringMember v ''hour'' = None \<or> stringMember v ''minute'' = None
   \<Longrightarrow> parseEfaDateTime dateParse v = NullDate"
  by (auto simp: parseEfaDateTime_def split: option.splits)

lemma padStart2_digits:
  assumes "twoDigits s"
  obtains a b where "padStart2 s = [a, b]" and "isDigit a" and "isDigit b"
    and "digitsValue 0 [a, b] = digitsValue 0 s"
proof -
  from assms consider c where "s = [c]" | c d where "s = [c, d]"
    by (auto simp: twoDigits_def length_Suc_conv numeral_2_eq_2)
  then show ?thesis
  proof cases
    case 1
    with assms that [of "CHR ''0''" c] show ?thesis
      by (simp add: twoDigits_def isDigit_def digitValue_def)
  next
    case 2
    with assms that [of c d] show ?thesis
      by (simp add: twoDigits_def)
  qed
qed

lemma fragment_members:
  "truthy (fragment y mo d h mi)"
  "stringMember (fragment y mo d h mi) ''year'' = Some y"
  "stringMember (fragment y mo d h mi) ''month'' = Some mo"
  "stringMember (fragment y mo d h mi) ''day'' = Some d"
  "stringMember (fragment y mo d h mi) ''hour'' = Some h"
  "stringMember (fragment y mo d h mi) ''minute'' = Some mi"
  by (simp_all add: fragment_def stringMember_def)

lemma isoDateParse_composed:
  assumes y: "length year = 4" "list_all isDigit year"
    and mo: "twoDigits month" and d: "twoDigits day" and h: "twoDigits hour" and mi: "twoDigits minute"
    and range: "1 \<le> digitsValue 0 month" "digitsValue 0 month \<le> 12"
      "1 \<le> digitsValue 0 day" "digitsValue 0 day \<le> 31"
      "digitsValue 0 hour \<le> 23" "digitsValue 0 minute \<le> 59"
  shows "isoDateParse localTZA (composeDateString year month day hour minute) =
    Some (localTimeValue localTZA (int (digitsValue 0 year)) (int (digitsValue 0 month))
            (int (digitsValue 0 day)) (int (digitsValue 0 hour)) (int (digitsValue 0 minute)) 0)"
proof -
  from y(1) obtain y1 y2 y3 y4 where year: "year = [y1, y2, y3, y4]"
    by (auto simp: length_Suc_conv numeral_eq_Suc)
  from mo obtain m1 m2 where pm: "padStart2 month = [m1, m2]" "isDigit m1" "isDigit m2"
    "digitsValue 0 [m1, m2] = digitsValue 0 month" by (rule padStart2_digits)
  from d obtain d1 d2 where pd: "padStart2 day = [d1, d2]" "isDigit d1" "isDigit d2"
    "digitsValue 0 [d1, d2] = digitsValue 0 day" by (rule padStart2_digits)
  from h obtain h1 h2 where ph: "padStart2 hour = [h1, h2]" "isDigit h1" "isDigit h2"
    "digitsValue 0 [h1, h2] = digitsValue 0 hour" by (rule padStart2_digits)
  from mi obtain n1 n2 where pn: "padStart2 minute = [n1, n2]" "isDigit n1" "isDigit n2"
    "digitsValue 0 [n1, n2] = digitsValue 0 minute" by (rule padStart2_digits)
  have s: "composeDateString year month day hour minute =
    [y1, y2, y3, y4, CHR ''-'', m1, m2, CHR ''-'', d1, d2, CHR ''T'', h1, h2, CHR '':'', n1, n2,
     CHR '':'', CHR ''0'', CHR ''0'']"
    by (simp add: composeDateString_def year pm pd ph pn)
  have zero: "isDigit CHR ''0''" "digitsValue 0 ''00'' = 0"
    by (simp_all add: isDigit_def digitValue_def)
  have fields:
    "digitsAt 0 4 (composeDateString year month day hour minute) = year"
    "digitsAt 5 2 (composeDateString year month day hour minute) = [m1, m2]"
    "digitsAt 8 2 (composeDateString year month day hour minute) = [d1, d2]"
    "digitsAt 11 2 (composeDateString year month day hour minute) = [h1, h2]"
    "digitsAt 14 2 (composeDateString year month day hour minute) = [n1, n2]"
    "digitsAt 17 2 (composeDateString year month day hour minute) = ''00''"
    unfolding s digitsAt_def by (simp_all add: year)
  have seps: "length (composeDateString year month day hour minute) = 19"
    "composeDateString year month day hour minute ! 4 = CHR ''-''"
    "composeDateString year month day hour minute ! 7 = CHR ''-''"
    "composeDateString year month day hour minute ! 10 = CHR ''T''"
    "composeDateString year month day hour minute ! 13 = CHR '':''"
    "composeDateString year month day hour minute ! 16 = CHR '':''"
    by (simp_all add: s)
  show ?thesis
    unfolding isoDateParse_def fields seps
    using y(2) range pm(2-4) pd(2-4) ph(2-4) pn(2-4) zero
    by (simp add: Let_def del: digitsValue.simps)
qed

lemma parseEfaDateTime_calendar:
  assumes "length year = 4" "list_all isDigit year"
    and "twoDigits month" and "twoDigits day" and "twoDigits hour" and "twoDigits minute"
    and "1 \<le> digitsValue 0 month" "digitsValue 0 month \<le> 12"
      "1 \<le> digitsValue 0 day" "digitsValue 0 day \<le> 31"
      "digitsValue 0 hour \<le> 23" "digitsValue 0 minute \<le> 59"
  shows "parseEfaDateTime (isoDateParse localTZA) (fragment year month day hour minute) =
    ValidDate (localTimeValue localTZA (int (digitsValue 0 year)) (int (digitsValue 0 month))
            (int (digitsValue 0 day)) (int (digitsValue 0 hour)) (int (digitsValue 0 minute)) 0)"
  by (simp add: parseEfaDateTime_def fragment_members isoDateParse_composed [OF assms])

text \<open>
  C7, as the specification states it, fails: the fields are only required to be strings,
  not to parse as integers. An empty minute field is padded to \<open>00\<close>, and the fragment
  2024, 1, 1, 10 with an empty minute yields the instant 2024-01-01T10:00:00.
\<close>

theorem parseEfaDateTime_counterexample:
  "parseEfaDateTime (isoDateParse 0) (fragment ''2024'' ''1'' ''1'' ''10'' [])
     = ValidDate 1704103200000
   \<and> \<not> parsesAsInteger []"
  by (simp add: evalDate parsesAsInteger_def)

text \<open>
  C7, amended. The normaliser yields an instant exactly when its input is truthy, all five
  fields year, month, day, hour and minute are present as strings, and the composed string
  (the year as given, month, day, hour and minute padded on the left with zeros to two
  characters, seconds \<open>00\<close>) is accepted by the date parser; the instant is then the one
  the parser gives for that string. For a four-digit year and one- or two-digit month,
  day, hour and minute within the calendar ranges this is the composed calendar time. In
  every other case, a missing or non-string field among them, the result is "unavailable"
  (null, never an invalid date), and nothing is raised.
\<close>

theorem parseEfaDateTime_spec:
  "(parseEfaDateTime dateParse v = ValidDate t \<longleftrightarrow>
      truthy v \<and>
      (\<exists>year month day hour minute.
         stringMember v ''year'' = Some year \<and> stringMember v ''month'' = Some month \<and>
         stringMember v ''day'' = Some day \<and> stringMember v ''hour'' = Some hour \<and>
         stringMember v ''minute'' = Some minute \<and>
         dateParse (composeDateString year month day hour minute) = Some t))
   \<and> ((\<forall>t. parseEfaDateTime dateParse v \<noteq> ValidDate t) \<longrightarrow>
        parseEfaDateTime dateParse v = NullDate)
   \<and> (stringMember v ''year'' = None \<or> stringMember v ''month'' = None
        \<or> stringMember v ''day'' = None \<or> stringMember v ''hour'' = None
        \<or> stringMember v ''minute'' = None \<longrightarrow>
        parseEfaDateTime dateParse v = NullDate)
   \<and> (length year = 4 \<and> list_all isDigit year \<and> twoDigits month \<and> twoDigits day
        \<and> twoDigits hour \<and> twoDigits minute
        \<and> 1 \<le> digitsValue 0 month \<and> digitsValue 0 month \<le> 12
        \<and> 1 \<le> digitsValue 0 day \<and> digitsValue 0 day \<le> 31
        \<and> digitsValue 0 hour \<le> 23 \<and> digitsValue 0 minute \<le> 59 \<longrightarrow>
        parseEfaDateTime (isoDateParse localTZA) (fragment year month day hour minute) =
          ValidDate (localTimeValue localTZA (int (digitsValue 0 year))
            (int (digitsValue 0 month)) (int (digitsValue 0 day)) (int (digitsValue 0 hour))
            (int (digitsValue 0 minute)) 0))"
proof (intro conjI)
  show "parseEfaDateTime dateParse v = ValidDate t \<longleftrightarrow>
      truthy v \<and>
      (\<exists>year month day hour minute.
         stringMember v ''year'' = Some year \<and> stringMember v ''month'' = Some month \<and>
         stringMember v ''day'' = Some day \<and> stringMember v ''hour'' = Some hour \<and>
         stringMember v ''minute'' = Some minute \<and>
         dateParse (composeDateString year month day hour minute) = Some t)"
    by (rule parseEfaDateTime_valid_iff)
  show "(\<forall>t. parseEfaDateTime dateParse v \<noteq> ValidDate t) \<longrightarrow>
        parseEfaDateTime dateParse v = NullDate"
    using parseEfaDateTime_not_invalid [of dateParse v]
    by (cases "parseEfaDateTime dateParse v") simp_all
  show "stringMember v ''year'' = None \<or> stringMember v ''month'' = None
        \<or> stringMember v ''day'' = None \<or> stringMember v ''hour'' = None
        \<or> stringMember v ''minute'' = None \<longrightarrow>
        parseEfaDateTime dateParse v = NullDate"
    using parseEfaDateTime_missing [of v dateParse] by blast
  show "length year = 4 \<and> list_all isDigit year \<and> twoDigits month \<and> twoDigits day
        \<and> twoDigits hour \<and> twoDigits minute
        \<and> 1 \<le> digitsValue 0 month \<and> digitsValue 0 month \<le> 12
        \<and> 1 \<le> digitsValue 0 day \<and> digitsValue 0 day \<le> 31
        \<and> digitsValue 0 hour \<le> 23 \<and> digitsValue 0 minute \<le> 59 \<longrightarrow>
        parseEfaDateTime (isoDateParse localTZA) (fragment year month day hour minute) =
          ValidDate (localTimeValue localTZA (int (digitsValue 0 year))
            (int (digitsValue 0 month)) (int (digitsValue 0 day)) (int (digitsValue 0 hour))
            (int (digitsValue 0 minute)) 0)"
    using parseEfaDateTime_calendar [of year month day hour minute localTZA] by blast
qed

theorem parseEfaDateTime_spec_witness:
  "parseEfaDateTime (isoDateParse 3600000) (fragment ''2024'' ''1'' ''01'' ''10'' ''5'')
     = ValidDate 1704099900000
   \<and> localTimeValue 3600000 2024 1 1 10 5 0 = 1704099900000
   \<and> stringMember (Some (JObj [(''year'', JStr ''2024'')])) ''month'' = None
   \<and> parseEfaDateTime (isoDateParse 3600000) (Some (JObj [(''year'', JStr ''2024'')])) = NullDate"
proof -
  have hyp: "length ''2024'' = 4 \<and> list_all isDigit ''2024'' \<and> twoDigits ''1'' \<and> twoDigits ''01''
        \<and> twoDigits ''10'' \<and> twoDigits ''5''
        \<and> 1 \<le> digitsValue 0 ''1'' \<and> digitsValue 0 ''1'' \<le> 12
        \<and> 1 \<le> digitsValue 0 ''01'' \<and> digitsValue 0 ''01'' \<le> 31
        \<and> digitsValue 0 ''10'' \<le> 23 \<and> digitsValue 0 ''5'' \<le> 59"
    by (simp add: twoDigits_def isDigit_def digitValue_def)
  have vals: "digitsValue 0 ''2024'' = 2024" "digitsValue 0 ''1'' = 1" "digitsValue 0 ''01'' = 1"
    "digitsValue 0 ''10'' = 10" "digitsValue 0 ''5'' = 5"
    by (simp_all add: digitValue_def)
  have tv: "localTimeValue 3600000 2024 1 1 10 5 0 = 1704099900000"
    by (simp add: localTimeValue_def daysFromCivil_def)
  have missing: "stringMember (Some (JObj [(''year'', JStr ''2024'')])) ''month'' = None"
    by (simp add: stringMember_def)
  from parseEfaDateTime_spec
    [of "isoDateParse 3600000" "Some (JObj [(''year'', JStr ''2024'')])" 0
        "''2024''" "''1''" "''01''" "''10''" "''5''" 3600000]
  have "parseEfaDateTime (isoDateParse 3600000) (fragment ''2024'' ''1'' ''01'' ''10'' ''5'')
          = ValidDate (localTimeValue 3600000 2024 1 1 10 5 0)"
    and "parseEfaDateTime (isoDateParse 3600000) (Some (JObj [(''year'', JStr ''2024'')])) = NullDate"
    using hyp missing unfolding vals by simp_all
  with tv missing show ?thesis by simp
qed

section \<open>Properties of the proximity search\<close>

lemmas evalSort = sortNearby_def sortBy_def compareDistance_def distanceOrInfinity_def stationAt_def

lemma notAfter_trans:
  "a \<noteq> NaN \<Longrightarrow> b \<noteq> NaN \<Longrightarrow> c \<noteq> NaN \<Longrightarrow> notAfter a b \<Longrightarrow> notAfter b c \<Longrightarrow> notAfter a c"
  by (cases a; cases b; cases c) (auto simp: notAfter_def)

lemma positive_notAfter: "isPositive (subtractNumbers a b) \<Longrightarrow> notAfter b a"
  by (cases a; cases b) (auto simp: notAfter_def)

lemma set_insertBy: "set (insertBy cmp x ys) = insert x (set ys)"
  by (induction ys) auto

lemma set_sortBy: "set (sortBy cmp xs) = set xs"
  by (induction xs) (simp_all add: sortBy_def set_insertBy)

lemma length_insertBy: "length (insertBy cmp x ys) = Suc (length ys)"
  by (induction ys) auto

lemma length_sortBy: "length (sortBy cmp xs) = length xs"
  by (induction xs) (simp_all add: sortBy_def length_insertBy)

lemma sorted_insertBy:
  assumes keys: "key x \<noteq> NaN" "\<forall>y \<in> set ys. key y \<noteq> NaN"
    and sorted: "sorted_wrt (\<lambda>a b. notAfter (key a) (key b)) ys"
  shows "sorted_wrt (\<lambda>a b. notAfter (key a) (key b))
           (insertBy (\<lambda>a b. subtractNumbers (key a) (key b)) x ys)"
  using keys(2) sorted
proof (induction ys)
  case Nil
  then show ?case by simp
next
  case (Cons y ys)
  show ?case
  proof (cases "isPositive (subtractNumbers (key x) (key y))")
    case True
    then have "notAfter (key y) (key x)" by (rule positive_notAfter)
    with Cons True show ?thesis by (auto simp: set_insertBy)
  next
    case False
    then have xy: "notAfter (key x) (key y)" by (simp add: notAfter_def)
    have "notAfter (key x) (key z)" if "z \<in> set ys" for z
    proof -
      from Cons.prems that have "notAfter (key y) (key z)" and "key z \<noteq> NaN" and "key y \<noteq> NaN"
        by auto
      with xy keys(1) show ?thesis by (blast intro: notAfter_trans)
    qed
    with Cons.prems xy False show ?thesis by auto
  qed
qed

lemma sorted_sortBy:
  "\<forall>x \<in> set xs. key x \<noteq> NaN \<Longrightarrow>
   sorted_wrt (\<lambda>a b. notAfter (key a) (key b)) (sortBy (\<lambda>a b. subtractNumbers (key a) (key b)) xs)"
proof (induction xs)
  case Nil
  then show ?case by (simp add: sortBy_def)
next
  case (Cons x xs)
  then have "sorted_wrt (\<lambda>a b. notAfter (key a) (key b))
    (insertBy (\<lambda>a b. subtractNumbers (key a) (key b)) x (sortBy (\<lambda>a b. subtractNumbers (key a) (key b)) xs))"
    by (intro sorted_insertBy) (simp_all add: set_sortBy)
  then show ?case by (simp add: sortBy_def)
qed

lemma usable_key: "usableDistance a \<Longrightarrow> distanceOrInfinity a \<noteq> NaN"
  by (auto simp: usableDistance_def distanceOrInfinity_def split: option.splits jsnum.splits)

lemma usable_adjacent:
  assumes "usableDistance a" "usableDistance b"
    and "notAfter (distanceOrInfinity a) (distanceOrInfinity b)"
  shows "(case (distanceValue a, distanceValue b) of
         (Some (Fin x), Some (Fin y)) \<Rightarrow> x \<le> y
       | (None, Some _) \<Rightarrow> False
       | _ \<Rightarrow> True)"
  using assms
  by (auto simp: usableDistance_def distanceOrInfinity_def notAfter_def
      split: option.splits jsnum.splits)

lemma ascending_sorted:
  "\<forall>a \<in> set xs. usableDistance a \<Longrightarrow>
   sorted_wrt (\<lambda>a b. notAfter (distanceOrInfinity a) (distanceOrInfinity b)) xs \<Longrightarrow>
   ascendingDistances xs"
proof (induction xs rule: ascendingDistances.induct)
  case (3 a b rest)
  then have "notAfter (distanceOrInfinity a) (distanceOrInfinity b)"
    and "usableDistance a" and "usableDistance b" by auto
  then have adj: "(case (distanceValue a, distanceValue b) of
         (Some (Fin x), Some (Fin y)) \<Rightarrow> x \<le> y
       | (None, Some _) \<Rightarrow> False
       | _ \<Rightarrow> True)" by (intro usable_adjacent)
  from 3 have "ascendingDistances (b # rest)" by auto
  with adj show ?case by (simp del: distanceValue.simps)
qed simp_all

text \<open>
  Where every station has no distance or a truthy distance that converts to a finite
  number, the sorting step does what it is meant to do: the stations with a distance come
  first, in ascending order of distance, and the stations are the same ones.
\<close>

lemma sortNearby_ascending:
  assumes "\<forall>a \<in> set stations. usableDistance a"
    and "stations \<noteq> []" and "distance (hd stations) \<noteq> None"
  shows "ascendingDistances (sortNearby stations)"
    and "set (sortNearby stations) = set stations"
    and "length (sortNearby stations) = length stations"
proof -
  from assms(2,3) have eq: "sortNearby stations = sortBy compareDistance stations"
    by (cases stations) (simp_all add: sortNearby_def)
  have cmp: "compareDistance = (\<lambda>a b. subtractNumbers (distanceOrInfinity a) (distanceOrInfinity b))"
    by (simp add: compareDistance_def fun_eq_iff)
  from assms(1) have keys: "\<forall>a \<in> set stations. distanceOrInfinity a \<noteq> NaN"
    by (simp add: usable_key)
  show "set (sortNearby stations) = set stations" by (simp add: eq set_sortBy)
  show "length (sortNearby stations) = length stations" by (simp add: eq length_sortBy)
  show "ascendingDistances (sortNearby stations)"
    unfolding eq cmp
    by (rule ascending_sorted) (simp_all add: set_sortBy assms(1) sorted_sortBy [OF keys])
qed

lemma sortNearby_unsorted:
  "stations = [] \<or> distance (hd stations) = None \<Longrightarrow> sortNearby stations = stations"
  by (cases stations) (auto simp: sortNearby_def)

text \<open>
  C10 at a station whose distance is the number zero. The comparator reads the distance
  as \<open>a.distance || Infinity\<close>, so a distance of 0 counts as no distance: for the
  stations A at distance 5 and B at distance 0, in this order, the handler returns A before
  B, which is not ascending. With B at distance 3 the same call returns B before A, and
  with the distances given as the strings \<open>5\<close> and \<open>0\<close> it returns B before A as well.
\<close>

theorem sortNearby_zero_distance:
  "sortNearby [stationAt ''A'' (Some (JNum 5)), stationAt ''B'' (Some (JNum 0))]
     = [stationAt ''A'' (Some (JNum 5)), stationAt ''B'' (Some (JNum 0))]
   \<and> \<not> ascendingDistances
         (sortNearby [stationAt ''A'' (Some (JNum 5)), stationAt ''B'' (Some (JNum 0))])
   \<and> sortNearby [stationAt ''A'' (Some (JNum 5)), stationAt ''B'' (Some (JNum 3))]
     = [stationAt ''B'' (Some (JNum 3)), stationAt ''A'' (Some (JNum 5))]
   \<and> sortNearby [stationAt ''A'' (Some (JStr ''5'')), stationAt ''B'' (Some (JStr ''0''))]
     = [stationAt ''B'' (Some (JStr ''0'')), stationAt ''A'' (Some (JStr ''5''))]"
  by (simp add: evalSort stringToNumber_def evalParse)

section \<open>Properties of the result classification\<close>

lemma someMessage_noNull:
  "list_all (\<lambda>m. m \<noteq> JNull) ms \<Longrightarrow> someMessage test ms = Inr (list_ex test ms)"
  by (induction ms) auto

lemma member_optMember:
  "optMember v key = Some x \<Longrightarrow> member v k = Inr (optMember v k)"
  by (cases "(v, key)" rule: optMember.cases) simp_all



lemmas evalClassify = classifyDepartures_def tryDepartures_def classifyRoute_def tryRoute_def
  stopNotFound_def ambiguous_def throwEfaApiError_def
  logEfaMessages_def entryLoggable_def hasCode_def orElse_def codeMessage_def loggable_def
  noNullEntries_def containsCode_def

lemma ambiguous_list:
  "noNullEntries msg \<Longrightarrow> ambiguous msg = Inr (containsCode ''-8011'' msg)"
  by (auto simp: ambiguous_def noNullEntries_def containsCode_def someMessage_noNull
      split: option.splits json.splits)

lemma classifyRoute_ambiguous:
  assumes log: "loggable (optMember efaData ''itdMessageList'')"
    and err: "\<not> truthy (optMember efaData ''error'')"
    and nn: "noNullEntries (optMember (optMember efaData ''origin'') ''message'')"
       "noNullEntries (optMember (optMember efaData ''destination'') ''message'')"
    and code: "containsCode ''-8011'' (optMember (optMember efaData ''origin'') ''message'')
       \<or> containsCode ''-8011'' (optMember (optMember efaData ''destination'') ''message'')"
    and trips: "\<not> truthy (optMember efaData ''trips'')"
  shows "classifyRoute efaData = AmbiguousLocation"
proof -
  from code obtain x where "optMember efaData ''origin'' = Some x \<or> optMember efaData ''destination'' = Some x"
    by (cases "optMember efaData ''origin''"; cases "optMember efaData ''destination''")
       (auto simp: containsCode_def)
  then have mem: "member efaData ''itdMessageList'' = Inr (optMember efaData ''itdMessageList'')"
    by (auto intro: member_optMember)
  from log have l: "logEfaMessages (optMember efaData ''itdMessageList'') = Inr ()"
    by (simp add: loggable_def)
  from code show ?thesis
    by (simp add: classifyRoute_def tryRoute_def mem l err trips
        ambiguous_list [OF nn(1)] ambiguous_list [OF nn(2)])
qed

lemma catchBlock_not_ambiguous: "catchBlock e \<noteq> AmbiguousLocation"
  by (cases e) simp_all

lemma tryRoute_trips:
  "truthy (optMember efaData ''trips'') \<Longrightarrow> tryRoute efaData \<noteq> Inr AmbiguousLocation"
  by (auto simp: tryRoute_def split: sum.splits if_splits)

lemma classifyRoute_trips:
  "truthy (optMember efaData ''trips'') \<Longrightarrow> classifyRoute efaData \<noteq> AmbiguousLocation"
  using tryRoute_trips [of efaData]
  by (cases "tryRoute efaData") (simp_all add: classifyRoute_def catchBlock_not_ambiguous)

lemma tryRoute_error:
  "truthy (optMember efaData ''error'') \<Longrightarrow> tryRoute efaData \<noteq> Inr AmbiguousLocation"
  by (auto simp: tryRoute_def split: sum.splits if_splits)

lemma classifyRoute_error:
  "truthy (optMember efaData ''error'') \<Longrightarrow> classifyRoute efaData \<noteq> AmbiguousLocation"
  using tryRoute_error [of efaData]
  by (cases "tryRoute efaData") (simp_all add: classifyRoute_def catchBlock_not_ambiguous)

text \<open>
  On a message list \<open>logEfaMessages\<close> returns exactly when no entry is null and every
  truthy \<open>text\<close> of an entry can be converted to a string; a list of entries that have
  no \<open>text\<close>, or a string as \<open>text\<close>, is an instance.
\<close>

lemma loggable_list:
  "loggable (Some (JArr messages)) = list_all entryLoggable messages"
  by (simp add: loggable_def logEfaMessages_def)

lemma loggable_absent: "loggable None \<and> loggable (Some JNull)"
  by (simp add: loggable_def logEfaMessages_def)




text \<open>
  C6, as the specification states it, fails on a payload whose \<open>trips\<close> field is an
  empty array: the origin message list holds the code \<open>-8011\<close>, there is no top-level
  error and no itinerary was returned at all, yet the empty array is truthy, the ambiguity
  answer is skipped, and the handler answers with status 200 and an empty list of routes.
  It also fails on message lists that the handler cannot walk: a null entry before the code
  in the origin list, or a top-level message whose \<open>text\<close> is an object with a member
  \<open>toString\<close>, ends in a TypeError and status 500.
\<close>

theorem classifyRoute_counterexample:
  "containsCode ''-8011'' (optMember (optMember ambiguousOriginEmptyTrips ''origin'') ''message'')
   \<and> tripsArray (optMember ambiguousOriginEmptyTrips ''trips'') = []
   \<and> \<not> truthy (optMember ambiguousOriginEmptyTrips ''error'')
   \<and> classifyRoute ambiguousOriginEmptyTrips = Success
   \<and> httpStatus (classifyRoute ambiguousOriginEmptyTrips) = 200
   \<and> containsCode ''-8011'' (optMember (optMember ambiguousOriginAfterNull ''origin'') ''message'')
   \<and> \<not> truthy (optMember ambiguousOriginAfterNull ''trips'')
   \<and> classifyRoute ambiguousOriginAfterNull = ProcessingError
   \<and> containsCode ''-8011'' (optMember (optMember ambiguousOriginUnlogged ''origin'') ''message'')
   \<and> \<not> truthy (optMember ambiguousOriginUnlogged ''trips'')
   \<and> classifyRoute ambiguousOriginUnlogged = ProcessingError"
  by (simp add: ambiguousOriginEmptyTrips_def ambiguousOriginAfterNull_def
      ambiguousOriginUnlogged_def tripsArray_def evalClassify)

text \<open>
  C6, amended. Take a route-search payload that the top-level error rule, which is applied
  first, does not claim (no truthy \<open>error\<close> field), whose top-level message list can be
  logged and whose origin and destination message lists have no null entry. If the origin
  list or the destination list contains an entry with name \<open>code\<close> and value
  \<open>-8011\<close> and the \<open>trips\<close> field is absent, null or otherwise falsy, the outcome is
  Ambiguous Location, also when only one of the two endpoints is ambiguous. When a truthy
  \<open>trips\<close> field is present, an empty array included, the outcome is never Ambiguous
  Location; nor is it when the payload has a truthy \<open>error\<close> field.
\<close>

theorem classifyRoute_spec:
  "(loggable (optMember efaData ''itdMessageList'')
    \<and> \<not> truthy (optMember efaData ''error'')
    \<and> noNullEntries (optMember (optMember efaData ''origin'') ''message'')
    \<and> noNullEntries (optMember (optMember efaData ''destination'') ''message'')
    \<and> (containsCode ''-8011'' (optMember (optMember efaData ''origin'') ''message'')
       \<or> containsCode ''-8011'' (optMember (optMember efaData ''destination'') ''message''))
    \<and> \<not> truthy (optMember efaData ''trips'')
    \<longrightarrow> classifyRoute efaData = AmbiguousLocation)
   \<and> (truthy (optMember efaData ''trips'') \<longrightarrow> classifyRoute efaData \<noteq> AmbiguousLocation)
   \<and> (truthy (optMember efaData ''error'') \<longrightarrow> classifyRoute efaData \<noteq> AmbiguousLocation)
   \<and> \<not> containsCode ''-8011'' (optMember (optMember ambiguousOrigin ''destination'') ''message'')
   \<and> classifyRoute ambiguousOrigin = AmbiguousLocation"
proof -
  have "\<not> containsCode ''-8011'' (optMember (optMember ambiguousOrigin ''destination'') ''message'')"
    by (simp add: ambiguousOrigin_def evalClassify)
  moreover have "classifyRoute ambiguousOrigin = AmbiguousLocation"
    by (simp add: ambiguousOrigin_def evalClassify)
  ultimately show ?thesis
    using classifyRoute_ambiguous [of efaData] classifyRoute_trips [of efaData]
      classifyRoute_error [of efaData] by blast
qed

theorem classifyRoute_spec_witness:
  "loggable (optMember ambiguousOrigin ''itdMessageList'')
   \<and> \<not> truthy (optMember ambiguousOrigin ''error'')
   \<and> noNullEntries (optMember (optMember ambiguousOrigin ''origin'') ''message'')
   \<and> noNullEntries (optMember (optMember ambiguousOrigin ''destination'') ''message'')
   \<and> containsCode ''-8011'' (optMember (optMember ambiguousOrigin ''origin'') ''message'')
   \<and> \<not> truthy (optMember ambiguousOrigin ''trips'')
   \<and> classifyRoute ambiguousOrigin = AmbiguousLocation
   \<and> truthy (optMember ambiguousOriginWithTrips ''trips'')
   \<and> classifyRoute ambiguousOriginWithTrips \<noteq> AmbiguousLocation
   \<and> truthy (optMember ambiguousOriginEmptyTrips ''trips'')
   \<and> classifyRoute ambiguousOriginEmptyTrips \<noteq> AmbiguousLocation
   \<and> truthy (optMember ambiguousOriginWithError ''error'')
   \<and> classifyRoute ambiguousOriginWithError \<noteq> AmbiguousLocation"
proof -
  have hyp: "loggable (optMember ambiguousOrigin ''itdMessageList'')
     \<and> \<not> truthy (optMember ambiguousOrigin ''error'')
     \<and> noNullEntries (optMember (optMember ambiguousOrigin ''origin'') ''message'')
     \<and> noNullEntries (optMember (optMember ambiguousOrigin ''destination'') ''message'')
     \<and> containsCode ''-8011'' (optMember (optMember ambiguousOrigin ''origin'') ''message'')
     \<and> \<not> truthy (optMember ambiguousOrigin ''trips'')"
    by (simp add: ambiguousOrigin_def evalClassify)
  have trips: "truthy (optMember ambiguousOriginWithTrips ''trips'')"
    by (simp add: ambiguousOriginWithTrips_def)
  have empty: "truthy (optMember ambiguousOriginEmptyTrips ''trips'')"
    by (simp add: ambiguousOriginEmptyTrips_def)
  have err: "truthy (optMember ambiguousOriginWithError ''error'')"
    by (simp add: ambiguousOriginWithError_def)
  from hyp trips empty err
    classifyRoute_spec [of ambiguousOrigin] classifyRoute_spec [of ambiguousOriginWithTrips]
    classifyRoute_spec [of ambiguousOriginEmptyTrips]
    classifyRoute_spec [of ambiguousOriginWithError]
  show ?thesis by blast
qed

section \<open>Properties of the query cache\<close>

lemma getFromCache_unavailable:
  "\<not> isReady client \<or> (\<exists>e. getReply client key = Inl e) \<Longrightarrow> fst (getFromCache client key) = None"
  by (auto simp: getFromCache_def)

lemma cachedQuery_miss:
  "fst (getFromCache client key) = None \<Longrightarrow>
   fst (cachedQuery client key ttl jsonParse jsonStringify fresh) = uncached fresh"
  by (cases "getFromCache client key") (auto simp: cachedQuery_def uncached_def split: sum.splits)

lemma cachedQuery_write_ignored:
  "fst (cachedQuery (client\<lparr>setReply := writes\<rparr>) key ttl jsonParse jsonStringify fresh)
   = fst (cachedQuery client key ttl jsonParse jsonStringify fresh)"
  by (auto simp: cachedQuery_def getFromCache_def split: sum.splits option.splits list.splits)

lemma setInCache_failure_logged:
  "isReady client \<Longrightarrow> setReply client key v ttl = Inl e \<Longrightarrow>
   setInCache client key v ttl = [Error (''Redis SET error for key '' @ key @ '':'')]"
  by (simp add: setInCache_def)

text \<open>
  C5. A cache that is not ready, or whose read is rejected, behaves as a miss, and the
  query ends as it ends without a cache: with the provider's error, or with the fresh
  result. What a write to the cache does never changes how the query ends: after a miss
  and a fresh result the answer is that result, and a rejected write is logged as an
  error and otherwise ignored. Neither cache function raises.
\<close>

theorem cache_failure_spec:
  "((\<not> isReady client \<or> (\<exists>e. getReply client key = Inl e)) \<longrightarrow>
      fst (getFromCache client key) = None
      \<and> fst (cachedQuery client key ttl jsonParse jsonStringify fresh) = uncached fresh)
   \<and> fst (cachedQuery (client\<lparr>setReply := writes\<rparr>) key ttl jsonParse jsonStringify fresh)
       = fst (cachedQuery client key ttl jsonParse jsonStringify fresh)
   \<and> (fst (getFromCache client key) = None \<and> fresh = Inr result \<longrightarrow>
        fst (cachedQuery client key ttl jsonParse jsonStringify fresh) = ServeFresh result)
   \<and> (isReady client \<and> (\<exists>e. setReply client key v ttl = Inl e) \<longrightarrow>
        setInCache client key v ttl = [Error (''Redis SET error for key '' @ key @ '':'')])"
proof (intro conjI impI)
  assume down: "\<not> isReady client \<or> (\<exists>e. getReply client key = Inl e)"
  then show miss: "fst (getFromCache client key) = None"
    by (rule getFromCache_unavailable)
  then show "fst (cachedQuery client key ttl jsonParse jsonStringify fresh) = uncached fresh"
    by (rule cachedQuery_miss)
next
  show "fst (cachedQuery (client\<lparr>setReply := writes\<rparr>) key ttl jsonParse jsonStringify fresh)
       = fst (cachedQuery client key ttl jsonParse jsonStringify fresh)"
    by (rule cachedQuery_write_ignored)
next
  assume "fst (getFromCache client key) = None \<and> fresh = Inr result"
  then show "fst (cachedQuery client key ttl jsonParse jsonStringify fresh) = ServeFresh result"
    by (simp add: cachedQuery_miss uncached_def)
next
  assume "isReady client \<and> (\<exists>e. setReply client key v ttl = Inl e)"
  then show "setInCache client key v ttl = [Error (''Redis SET error for key '' @ key @ '':'')]"
    by (auto simp: setInCache_failure_logged)
qed

theorem cache_failure_spec_witness:
  "\<not> isReady downClient
   \<and> fst (cachedQuery downClient ''k'' 60 (\<lambda>s. None) (\<lambda>r. ''7'') (Inr (7::nat))) = ServeFresh 7
   \<and> getReply failingReadClient ''k'' = Inl (CacheError ''timeout'')
   \<and> fst (cachedQuery failingReadClient ''k'' 60 (\<lambda>s. None) (\<lambda>r. ''7'') (Inr (7::nat)))
       = ServeFresh 7
   \<and> fst (cachedQuery failingReadClient ''k'' 60 (\<lambda>s. None) (\<lambda>r. ''7'') (Inl 502 :: nat + nat))
       = Failed 502
   \<and> isReady failingWriteClient
   \<and> setReply failingWriteClient ''k'' ''7'' 60 = Inl (CacheError ''timeout'')
   \<and> fst (getFromCache failingWriteClient ''k'') = None
   \<and> cachedQuery failingWriteClient ''k'' 60 (\<lambda>s. None) (\<lambda>r. ''7'') (Inr (7::nat))
       = (ServeFresh 7, [Error ''Redis SET error for key k:''])"
proof -
  have down: "\<not> isReady downClient" by (simp add: downClient_def)
  have rd: "getReply failingReadClient ''k'' = Inl (CacheError ''timeout'')"
    by (simp add: failingReadClient_def)
  have wr: "isReady failingWriteClient"
    "setReply failingWriteClient ''k'' ''7'' 60 = Inl (CacheError ''timeout'')"
    "fst (getFromCache failingWriteClient ''k'') = None"
    by (simp_all add: failingWriteClient_def getFromCache_def)
  have full: "cachedQuery failingWriteClient ''k'' 60 (\<lambda>s. None) (\<lambda>r. ''7'') (Inr (7::nat))
       = (ServeFresh 7, [Error ''Redis SET error for key k:''])"
    by (simp add: cachedQuery_def getFromCache_def setInCache_def failingWriteClient_def)
  from down rd wr full
    cache_failure_spec [of downClient "''k''" 60 "\<lambda>s. None" "\<lambda>r. ''7''" "Inr (7::nat)"]
    cache_failure_spec [of failingReadClient "''k''" 60 "\<lambda>s. None" "\<lambda>r. ''7''" "Inr (7::nat)"]
    cache_failure_spec [of failingReadClient "''k''" 60 "\<lambda>s. None" "\<lambda>r. ''7''" "Inl 502 :: nat + nat"]
    cache_failure_spec [of failingWriteClient "''k''" 60 "\<lambda>s. None" "\<lambda>r. ''7''" "Inr (7::nat)"
                           _ 7 "''7''"]
  show ?thesis by (simp add: uncached_def)
qed

end
